theory Spec2Isabelle
  imports Main
begin

section \<open>cordova-paramedic: the run orchestrator of lib/paramedic.js\<close>

text \<open>
  The development embeds \<^verbatim>\<open>src/lib/paramedic.js\<close>. The file is asynchronous
  JavaScript on top of the promise library Q, so three things are made explicit:
  \<^item> a promise is a value that is pending, fulfilled or rejected, and settles at most once;
  \<^item> every call that leaves the file is recorded in a trace, stamped with the time of the
    call; the calls of tmp, shelljs, utils.exec, the plugins manager, the event server's
    \<^verbatim>\<open>on\<close>, fs, request and wd may throw, while the logger, \<^verbatim>\<open>setTimeout\<close> and the
    server's predicate \<^verbatim>\<open>isDeviceConnected\<close> only return;
  \<^item> the answers of the outside world (exit codes, the moment an external promise
    settles, the events the server emits) are the fields of a record \<open>world\<close>.
\<close>

subsection \<open>Values, rejection reasons and promises\<close>

text \<open>
  \<open>Raw s\<close> is a rejection value that is not an Error object, known by its string form
  (what \<^verbatim>\<open>execPromise\<close> rejects with); \<open>NoReason\<close> is the reason of
  \<^verbatim>\<open>reject()\<close> called without an argument.
\<close>

datatype reason =
    Error string
  | ReferenceError string
  | TypeError string
  | Raw string
  | NoReason

datatype jsvalue = Undefined | Boolean bool

datatype promise = Pending | Fulfilled jsvalue | Rejected reason

text \<open>The two functions Q hands to a \<^verbatim>\<open>Q.promise\<close> resolver: only a pending promise changes.\<close>

definition resolve :: "jsvalue \<Rightarrow> promise \<Rightarrow> promise" where
  "resolve v p = (case p of Pending \<Rightarrow> Fulfilled v | _ \<Rightarrow> p)"

definition reject :: "reason \<Rightarrow> promise \<Rightarrow> promise" where
  "reject r p = (case p of Pending \<Rightarrow> Rejected r | _ \<Rightarrow> p)"

subsection \<open>The event server's events and waitForTests\<close>

text \<open>
  The routes of the local server. \<open>JasmineDone n\<close> carries
  \<^verbatim>\<open>data.specResults.specFailed = n\<close>.
\<close>

datatype server_event =
    JasmineStarted
  | SpecStarted
  | SpecDone
  | SuiteStarted
  | SuiteDone
  | JasmineDone int
  | DeviceLog
  | DeviceInfo
  | Disconnect

text \<open>
  The two listeners that \<^verbatim>\<open>waitForTests\<close> registers (lines 152-162), as functions on
  the promise they close over.
\<close>

definition jasmineDone_listener :: "int \<Rightarrow> promise \<Rightarrow> promise" where
  "jasmineDone_listener specFailed p =
     (let isTestPassed = (specFailed = 0) in resolve (Boolean isTestPassed) p)"

definition disconnect_listener :: "promise \<Rightarrow> promise" where
  "disconnect_listener p =
     reject (Error ''device is disconnected before passing the tests'') p"

text \<open>The server emitting one event: the listener of that route runs, the others do not.\<close>

fun emit :: "server_event \<Rightarrow> promise \<Rightarrow> promise" where
  "emit (JasmineDone n) p = jasmineDone_listener n p"
| "emit Disconnect p = disconnect_listener p"
| "emit _ p = p"

text \<open>
  The promise of \<^verbatim>\<open>waitForTests\<close> under a sequence of timed events, in the order of
  emission. The second component is the time at which the promise settled.
\<close>

fun deliver_events :: "(nat \<times> server_event) list \<Rightarrow> promise \<times> nat \<Rightarrow> promise \<times> nat" where
  "deliver_events [] s = s"
| "deliver_events ((t, e) # evs) (p, ts) =
     deliver_events evs (emit e p, if p = Pending \<and> emit e p \<noteq> Pending then t else ts)"

fun is_jasmineDone :: "server_event \<Rightarrow> bool" where
  "is_jasmineDone (JasmineDone n) = True"
| "is_jasmineDone _ = False"

definition settles :: "server_event \<Rightarrow> bool" where
  "settles e = (is_jasmineDone e \<or> e = Disconnect)"

subsection \<open>Configuration, calls that leave the file, and the outside world\<close>

text \<open>
  The getters of \<^verbatim>\<open>paramedicConfig\<close> that decide control flow or appear in a
  command line. \<^verbatim>\<open>getPlugins\<close>, \<^verbatim>\<open>getPorts\<close>,
  \<^verbatim>\<open>getExternalServerUrl\<close>, \<^verbatim>\<open>getUseTunnel\<close> and
  \<^verbatim>\<open>getReportSavePath\<close> are only handed on to external calls and are left out.
  \<open>getArgs = None\<close> is \<^verbatim>\<open>undefined\<close>.
\<close>

record config =
  getPlatform :: string
  getPlatformId :: string
  getAction :: string
  getArgs :: "string option"
  shouldUseSauce :: bool
  getShouldCleanUpAfterRun :: bool
  getTimeout :: nat
  isVerbose :: bool
  verbose :: bool

datatype listener =
    ReporterMethod string string
  | DeviceLogListener
  | DeviceInfoListener
  | JasmineDoneListener
  | DisconnectListener

text \<open>
  One constructor for each call that leaves the file, with the arguments that the file
  computes. \<open>EnterCleanUpProject\<close> marks an invocation of \<^verbatim>\<open>cleanUpProject\<close>
  (which does nothing else when the cleanup flag is off), and \<open>Uncaught r\<close> an exception
  thrown where no promise catches it.
\<close>

datatype action =
    SetVerboseLevel bool
  | Logger string string
  | TmpDirSync
  | TmpSetGracefulCleanup
  | Exec string
  | ShellPushd string
  | ShellSed "string list"
  | ShellPopd
  | ShellRm "string list"
  | NewPluginsManager string string
  | InstallPlugins
  | InstallTestsForExistingPlugins
  | InstallSinglePlugin string
  | StartServer
  | GetReporters
  | ServerOn string listener
  | GetConnectionUrl string
  | WriteFileSync "string list" "(string \<times> string) list"
  | ExecPromise string
  | SetTimeout nat
  | IsDeviceConnected
  | CreateReadStream "string list"
  | RequestPost string
  | WdRemote string string
  | DriverInit "(string \<times> string) list"
  | DriverQuit
  | EnterCleanUpProject
  | Uncaught reason

text \<open>
  An external asynchronous operation either never completes, or completes after a
  duration, with an error (\<open>Some r\<close>) or without.
\<close>

datatype completion = Never | After nat "reason option"

text \<open>
  The outside world of one run. \<open>throws a\<close> is the exception that the external call
  \<open>a\<close> throws synchronously, if any. \<open>reporters\<close> lists what
  \<^verbatim>\<open>getReporters\<close> returns: a name for each reporter and the routes \<open>r\<close> for which
  \<^verbatim>\<open>reporter[r] instanceof Function\<close>. \<open>storedCWD\<close> is the working directory that
  \<^verbatim>\<open>exports.run\<close> caches at its first call and stores in the runner;
  \<open>paramedic_plugin_path\<close> is the value of
  \<^verbatim>\<open>path.join(__dirname, '../paramedic-plugin')\<close>. \<open>isDeviceConnected t\<close> is the answer of the
  server's predicate at time \<open>t\<close>; \<open>server_events\<close> are the events the server emits, with
  the time of each.
\<close>

record world =
  env :: "string \<Rightarrow> string option"
  throws :: "action \<Rightarrow> reason option"
  tmp_name :: string
  storedCWD :: string
  paramedic_plugin_path :: string
  exit_code :: "string \<Rightarrow> int"
  reporters :: "(string \<times> string list) list"
  connection_url :: "string \<Rightarrow> string"
  startServer_completes :: completion
  execPromise_completes :: "string \<Rightarrow> completion"
  upload_completes :: completion
  driver_init_completes :: completion
  isDeviceConnected :: "nat \<Rightarrow> bool"
  server_events :: "(nat \<times> server_event) list"

text \<open>
  The fields of \<^verbatim>\<open>ParamedicRunner\<close> that the file reads back, the clock, the trace
  of calls and the expiry times of the timers that are armed and have not fired.
  \<open>tempFolder = None\<close> is \<^verbatim>\<open>null\<close>. \<^verbatim>\<open>self.server\<close> is assigned at line 62
  before every use and is not a field here.
\<close>

record runner =
  tempFolder :: "string option"
  now :: nat
  trace :: "(nat \<times> action) list"
  timers :: "nat list"

subsection \<open>Steps: synchronous code and promise chains\<close>

text \<open>
  A step runs from a runner state and ends in one of three ways: with a value (a return,
  a fulfilled promise), with a reason (a throw, a rejected promise), or never (a promise
  that stays pending).
\<close>

datatype 'a result = Ok 'a | Fail reason | Hang

type_synonym 'a step = "runner \<Rightarrow> 'a result \<times> runner"

definition ret :: "'a \<Rightarrow> 'a step" where
  "ret x st = (Ok x, st)"

definition throw :: "reason \<Rightarrow> 'a step" where
  "throw r st = (Fail r, st)"

text \<open>
  Sequencing: \<^verbatim>\<open>a; b\<close> in synchronous code and \<^verbatim>\<open>p.then(f)\<close> on promises. A
  throw inside a \<^verbatim>\<open>then\<close> callback rejects the promise that \<^verbatim>\<open>then\<close> returned,
  so both skip the rest on \<open>Fail\<close>.
\<close>

definition thn :: "'a step \<Rightarrow> ('a \<Rightarrow> 'b step) \<Rightarrow> 'b step" where
  "thn m f st =
     (case m st of
        (Ok x, st') \<Rightarrow> f x st'
      | (Fail r, st') \<Rightarrow> (Fail r, st')
      | (Hang, st') \<Rightarrow> (Hang, st'))"

fun seq :: "unit step list \<Rightarrow> unit step" where
  "seq [] = ret ()"
| "seq (m # ms) = thn m (\<lambda>_. seq ms)"

text \<open>\<^verbatim>\<open>p.then(onFulfilled, onRejected)\<close>.\<close>

definition then2 :: "'a step \<Rightarrow> ('a \<Rightarrow> 'b step) \<Rightarrow> (reason \<Rightarrow> 'b step) \<Rightarrow> 'b step" where
  "then2 m f g st =
     (case m st of
        (Ok x, st') \<Rightarrow> f x st'
      | (Fail r, st') \<Rightarrow> g r st'
      | (Hang, st') \<Rightarrow> (Hang, st'))"

text \<open>
  \<^verbatim>\<open>p.fin(callback)\<close> of Q: the callback runs when \<open>p\<close> settles, either way; the
  promise returned takes the outcome of \<open>p\<close>, unless the callback throws, in which case
  it is rejected with what the callback threw. A pending \<open>p\<close> never runs the callback.
\<close>

definition fin :: "'a step \<Rightarrow> unit step \<Rightarrow> 'a step" where
  "fin m callback st =
     (case m st of
        (Hang, st') \<Rightarrow> (Hang, st')
      | (r, st') \<Rightarrow>
          (case callback st' of
             (Ok _, st'') \<Rightarrow> (r, st'')
           | (Fail e, st'') \<Rightarrow> (Fail e, st'')
           | (Hang, st'') \<Rightarrow> (Hang, st'')))"

definition record_call :: "action \<Rightarrow> unit step" where
  "record_call a st = (Ok (), st\<lparr>trace := trace st @ [(now st, a)]\<rparr>)"

text \<open>A call of an external collaborator: recorded, then it returns or throws.\<close>

definition ext :: "world \<Rightarrow> action \<Rightarrow> unit step" where
  "ext w a =
     thn (record_call a) (\<lambda>_. case throws w a of None \<Rightarrow> ret () | Some r \<Rightarrow> throw r)"

text \<open>Waiting for an external asynchronous operation: the clock moves to its completion.\<close>

definition wait :: "completion \<Rightarrow> unit step" where
  "wait a st =
     (case a of
        Never \<Rightarrow> (Hang, st)
      | After d None \<Rightarrow> (Ok (), st\<lparr>now := now st + d\<rparr>)
      | After d (Some r) \<Rightarrow> (Fail r, st\<lparr>now := now st + d\<rparr>))"

text \<open>An exception thrown in a callback that no promise wraps: nothing settles.\<close>

definition uncaught :: "reason \<Rightarrow> 'a step" where
  "uncaught r st = (Hang, st\<lparr>trace := trace st @ [(now st, Uncaught r)]\<rparr>)"

definition logger :: "string \<Rightarrow> string \<Rightarrow> unit step" where
  "logger level msg = record_call (Logger level msg)"

subsection \<open>Strings of JavaScript values\<close>

fun string_of_nat :: "nat \<Rightarrow> string" where
  "string_of_nat n =
     (if n < 10 then [''0123456789'' ! n]
      else string_of_nat (n div 10) @ [''0123456789'' ! (n mod 10)])"

declare string_of_nat.simps [simp del]

text \<open>What \<^verbatim>\<open>'' + x\<close> gives for a rejection reason \<open>x\<close>.\<close>

fun reason_string :: "reason \<Rightarrow> string" where
  "reason_string (Error m) = ''Error: '' @ m"
| "reason_string (ReferenceError m) = ''ReferenceError: '' @ m"
| "reason_string (TypeError m) = ''TypeError: '' @ m"
| "reason_string (Raw s) = s"
| "reason_string NoReason = ''undefined''"

text \<open>\<^verbatim>\<open>!v\<close> for an environment variable or argument string: unset or empty.\<close>

definition falsy :: "string option \<Rightarrow> bool" where
  "falsy v = (v = None \<or> v = Some [])"

definition env_string :: "world \<Rightarrow> string \<Rightarrow> string" where
  "env_string w k = (case env w k of None \<Rightarrow> ''undefined'' | Some v \<Rightarrow> v)"

subsection \<open>Module constants (lines 35-40)\<close>

definition INITIAL_CONNECTION_TIMEOUT :: nat where
  "INITIAL_CONNECTION_TIMEOUT = 300000"

definition SAUCE_USER_ENV_VAR :: string where
  "SAUCE_USER_ENV_VAR = ''SAUCE_USER''"

definition SAUCE_KEY_ENV_VAR :: string where
  "SAUCE_KEY_ENV_VAR = ''SAUCE_ACCESS_KEY''"

text \<open>
  The identifiers bound where the callbacks of \<^verbatim>\<open>runTests\<close> are evaluated: the
  module's own variables, the parameters of Node's module wrapper, and the locals and
  parameters of \<^verbatim>\<open>runTests\<close> and its callbacks. Node's globals add
  \<^verbatim>\<open>process\<close>, \<^verbatim>\<open>setTimeout\<close>, \<^verbatim>\<open>JSON\<close>, \<^verbatim>\<open>Error\<close> and the like.
  Reading any other identifier throws a ReferenceError.
\<close>

definition identifiers_in_scope :: "string list" where
  "identifiers_in_scope =
     [''exec'', ''execPromise'', ''shell'', ''Server'', ''Q'', ''tmp'', ''PluginsManager'',
      ''path'', ''fs'', ''request'', ''wd'', ''getReporters'', ''logger'',
      ''INITIAL_CONNECTION_TIMEOUT'', ''SAUCE_USER_ENV_VAR'', ''SAUCE_KEY_ENV_VAR'',
      ''ParamedicRunner'', ''storedCWD'',
      ''exports'', ''require'', ''module'', ''__filename'', ''__dirname'',
      ''self'', ''command'', ''code'', ''output'',
      ''process'', ''setTimeout'', ''JSON'', ''Error'', ''encodeURI'']"

definition read_identifier :: "string \<Rightarrow> unit step" where
  "read_identifier x =
     (if x \<in> set identifiers_in_scope then ret ()
      else throw (ReferenceError (x @ '' is not defined'')))"

subsection \<open>The methods of ParamedicRunner\<close>

text \<open>
  \<^verbatim>\<open>this.tempFolder.name\<close>: a TypeError while \<^verbatim>\<open>tempFolder\<close> is still
  \<^verbatim>\<open>null\<close>. The message is the one of the V8 engine of the Node releases this file was
  written for; \<open>CHR 0x27\<close> is the single quote.
\<close>

definition null_name_message :: string where
  "null_name_message =
     ''Cannot read property '' @ [CHR 0x27] @ ''name'' @ [CHR 0x27] @ '' of null''"

definition tempFolder_name :: "string step" where
  "tempFolder_name st =
     (case tempFolder st of
        None \<Rightarrow> (Fail (TypeError null_name_message), st)
      | Some name \<Rightarrow> (Ok name, st))"

definition shouldWaitForTestResult :: "config \<Rightarrow> bool" where
  "shouldWaitForTestResult c =
     (let action = getAction c in action = ''run'' \<or> action = ''emulate'')"

definition checkSauceRequirements :: "world \<Rightarrow> config \<Rightarrow> unit step" where
  "checkSauceRequirements w c =
     (if shouldUseSauce c then
        (if getPlatformId c \<noteq> ''android'' \<and> getPlatformId c \<noteq> ''ios'' then
           throw (Error ''Sauce Labs only supports Android and iOS'')
         else if falsy (env w SAUCE_KEY_ENV_VAR) then
           throw (Error (SAUCE_KEY_ENV_VAR @ '' environment variable not set''))
         else if falsy (env w SAUCE_USER_ENV_VAR) then
           throw (Error (SAUCE_USER_ENV_VAR @ '' environment variable not set''))
         else if \<not> shouldWaitForTestResult c then
           throw (Error ''justBuild cannot be used with shouldUseSauce'')
         else ret ())
      else ret ())"

definition createTempProject :: "world \<Rightarrow> unit step" where
  "createTempProject w =
     seq [ext w TmpDirSync,
          (\<lambda>st. (Ok (), st\<lparr>tempFolder := Some (tmp_name w)\<rparr>)),
          ext w TmpSetGracefulCleanup,
          thn tempFolder_name (\<lambda>name.
            logger ''info'' (''cordova-paramedic: creating temp project at '' @ name)),
          thn tempFolder_name (\<lambda>name. ext w (Exec (''cordova create '' @ name))),
          thn tempFolder_name (\<lambda>name. ext w (ShellPushd name))]"

definition installPlugins :: "world \<Rightarrow> unit step" where
  "installPlugins w =
     seq [logger ''info'' ''cordova-paramedic: installing plugins'',
          thn tempFolder_name (\<lambda>name. ext w (NewPluginsManager name (storedCWD w))),
          ext w InstallPlugins,
          ext w InstallTestsForExistingPlugins,
          ext w (InstallSinglePlugin ''cordova-plugin-test-framework''),
          ext w (InstallSinglePlugin ''cordova-plugin-device''),
          ext w (InstallSinglePlugin (paramedic_plugin_path w))]"

text \<open>\<open>CHR 0x22\<close> is the double quote of \<^verbatim>\<open>'src="index.html"'\<close>.\<close>

definition setUpStartPage :: "world \<Rightarrow> unit step" where
  "setUpStartPage w =
     seq [logger ''normal'' ''cordova-paramedic: setting app start page to test page'',
          ext w (ShellSed [''-i'',
                           ''src='' @ [CHR 0x22] @ ''index.html'' @ [CHR 0x22],
                           ''src='' @ [CHR 0x22] @ ''cdvtests/index.html'' @ [CHR 0x22],
                           ''config.xml''])]"

definition installPlatform :: "world \<Rightarrow> config \<Rightarrow> unit step" where
  "installPlatform w c =
     seq [logger ''info'' (''cordova-paramedic: adding platform : '' @ getPlatform c),
          ext w (Exec (''cordova platform add '' @ getPlatform c))]"

definition checkPlatformRequirements :: "world \<Rightarrow> config \<Rightarrow> unit step" where
  "checkPlatformRequirements w c =
     seq [logger ''normal''
            (''cordova-paramedic: checking requirements for platform '' @ getPlatformId c),
          ext w (Exec (''cordova requirements '' @ getPlatformId c)),
          (if exit_code w (''cordova requirements '' @ getPlatformId c) \<noteq> 0
           then throw (Error ''Platform requirements check has failed!'')
           else ret ())]"

definition prepareProjectToRunTests :: "world \<Rightarrow> config \<Rightarrow> unit step" where
  "prepareProjectToRunTests w c =
     seq [installPlugins w, setUpStartPage w, installPlatform w c,
          checkPlatformRequirements w c]"

definition lifecycle_routes :: "string list" where
  "lifecycle_routes =
     [''jasmineStarted'', ''specStarted'', ''specDone'',
      ''suiteStarted'', ''suiteDone'', ''jasmineDone'']"

text \<open>
  The listeners \<^verbatim>\<open>injectReporters\<close> registers, in the order of its two nested
  \<^verbatim>\<open>forEach\<close>: routes outside, reporters inside.
\<close>

definition reporter_listeners :: "world \<Rightarrow> (string \<times> listener) list" where
  "reporter_listeners w =
     concat (map (\<lambda>route.
        map (\<lambda>reporter. (route, ReporterMethod (fst reporter) route))
          (filter (\<lambda>reporter. route \<in> set (snd reporter)) (reporters w)))
        lifecycle_routes)"

definition injectReporters :: "world \<Rightarrow> unit step" where
  "injectReporters w =
     thn (ext w GetReporters) (\<lambda>_.
       seq (map (\<lambda>(route, l). ext w (ServerOn route l)) (reporter_listeners w)))"

definition subcribeForEvents :: "world \<Rightarrow> unit step" where
  "subcribeForEvents w =
     seq [ext w (ServerOn ''deviceLog'' DeviceLogListener),
          ext w (ServerOn ''deviceInfo'' DeviceInfoListener)]"

text \<open>
  The file is \<^verbatim>\<open>path.join("www", "medic.json")\<close>, kept as its segments; the content
  is \<^verbatim>\<open>JSON.stringify({logurl: url})\<close>, kept as the object's fields.
\<close>

definition writeMedicConnectionUrl :: "world \<Rightarrow> string \<Rightarrow> unit step" where
  "writeMedicConnectionUrl w url =
     seq [logger ''normal'' (''cordova-paramedic: writing medic log url to project '' @ url),
          ext w (WriteFileSync [''www'', ''medic.json''] [(''logurl'', url)])]"

text \<open>
  \<^verbatim>\<open>waitForTests\<close> (lines 148-164). The listeners are registered when it is called,
  so they see the events the server emits from then on. The step ends when the promise
  settles; a promise that no event settles stays pending.
\<close>

definition waitForTests :: "world \<Rightarrow> jsvalue step" where
  "waitForTests w =
     thn (logger ''info'' ''cordova-paramedic: waiting for test results'') (\<lambda>_.
     thn (ext w (ServerOn ''jasmineDone'' JasmineDoneListener)) (\<lambda>_.
     thn (ext w (ServerOn ''disconnect'' DisconnectListener)) (\<lambda>_ st.
       case deliver_events (filter (\<lambda>(t, e). now st \<le> t) (server_events w)) (Pending, now st) of
         (Pending, _) \<Rightarrow> (Hang, st)
       | (Fulfilled v, t) \<Rightarrow>
           (Ok v, st\<lparr>now := t,
                     trace := trace st @
                       [(t, Logger ''info'' ''cordova-paramedic: tests have been completed'')]\<rparr>)
       | (Rejected r, t) \<Rightarrow> (Fail r, st\<lparr>now := t\<rparr>))))"

definition ERR_MSG :: string where
  "ERR_MSG = ''Seems like device not connected to local server in ''
              @ string_of_nat (INITIAL_CONNECTION_TIMEOUT div 1000) @ '' secs''"

text \<open>
  \<^verbatim>\<open>waitForConnection\<close> (lines 221-235) in its two moments. The call creates the
  promise and arms the timer (\<open>waitForConnection_call\<close>, which returns the expiry time);
  the timer's callback runs at expiry (\<open>waitForConnection_expiry\<close>) and settles the
  promise by the server's predicate. \<open>waitForConnection\<close> is the call followed by the
  wait for its promise.
\<close>

definition waitForConnection_call :: "nat step" where
  "waitForConnection_call st =
     (Ok (now st + INITIAL_CONNECTION_TIMEOUT),
      st\<lparr>trace := trace st @ [(now st, SetTimeout INITIAL_CONNECTION_TIMEOUT)],
         timers := timers st @ [now st + INITIAL_CONNECTION_TIMEOUT]\<rparr>)"

definition waitForConnection_expiry :: "world \<Rightarrow> nat \<Rightarrow> jsvalue step" where
  "waitForConnection_expiry w expiry st =
     (let st' = st\<lparr>now := expiry,
                    trace := trace st @ [(expiry, IsDeviceConnected)],
                    timers := remove1 expiry (timers st)\<rparr>
      in if \<not> isDeviceConnected w expiry then (Fail (Error ERR_MSG), st')
         else (Ok Undefined, st'))"

definition waitForConnection :: "world \<Rightarrow> jsvalue step" where
  "waitForConnection w = thn waitForConnection_call (waitForConnection_expiry w)"

definition cleanUpProject :: "world \<Rightarrow> config \<Rightarrow> unit step" where
  "cleanUpProject w c =
     thn (record_call EnterCleanUpProject) (\<lambda>_.
       if getShouldCleanUpAfterRun c then
         seq [thn tempFolder_name (\<lambda>name.
                logger ''info'' (''cordova-paramedic: Deleting the application: '' @ name)),
              ext w ShellPopd,
              thn tempFolder_name (\<lambda>name. ext w (ShellRm [''-rf'', name]))]
       else ret ())"

definition getCommandForStartingTests :: "config \<Rightarrow> string" where
  "getCommandForStartingTests c =
     (let cmd = ''cordova '' @ getAction c @ '' '' @ getPlatformId c
      in case getArgs c of
           None \<Rightarrow> cmd
         | Some a \<Rightarrow> if a = [] then cmd else cmd @ '' '' @ a)"

definition getCommandForBuilding :: "config \<Rightarrow> string" where
  "getCommandForBuilding c = ''cordova build '' @ getPlatformId c"

definition getBinaryPath :: "config \<Rightarrow> string list step" where
  "getBinaryPath c =
     (if getPlatformId c = ''android'' then
        thn tempFolder_name (\<lambda>name.
          ret [name, ''platforms'', ''android'', ''build'', ''outputs'', ''apk'',
               ''android-debug.apk''])
      else if getPlatformId c = ''ios'' then
        thn tempFolder_name (\<lambda>name.
          ret [name, ''platforms'', ''ios'', ''build'', ''device'', ''mobilespec.ipa''])
      else throw (Error ''Unsupported platform for sauce labs testing''))"

definition getAppName :: "config \<Rightarrow> string step" where
  "getAppName c =
     (if getPlatformId c = ''android'' then ret ''android-debug.apk''
      else if getPlatformId c = ''ios'' then ret ''mobilespec.ipa''
      else throw (Error ''Unsupported platform for sauce labs testing''))"

text \<open>
  \<^verbatim>\<open>uploadApp\<close> (lines 259-293). \<open>RequestPost\<close> carries the URL as handed to
  \<^verbatim>\<open>encodeURI\<close>. The callback of \<^verbatim>\<open>request.post\<close> rejects with its error or
  resolves.
\<close>

definition uploadApp :: "world \<Rightarrow> config \<Rightarrow> unit step" where
  "uploadApp w c =
     thn (getAppName c) (\<lambda>appName.
     thn (logger ''normal'' (''cordova-paramedic: uploading '' @ appName @ '' to Sauce Storage'')) (\<lambda>_.
     let sauceUser = env_string w SAUCE_USER_ENV_VAR in
     thn (getBinaryPath c) (\<lambda>binaryPath.
     thn (ext w (CreateReadStream binaryPath)) (\<lambda>_.
     thn (getAppName c) (\<lambda>filename.
     thn (getAppName c) (\<lambda>name.
     thn (ext w (RequestPost (''https://saucelabs.com/rest/v1/storage/'' @ sauceUser @ ''/''
                               @ name @ ''?overwrite=true''))) (\<lambda>_.
     wait (upload_completes w))))))))"

text \<open>The capability object built at lines 333-356, as its fields in order of assignment.\<close>

definition capabilities :: "config \<Rightarrow> (string \<times> string) list step" where
  "capabilities c =
     thn (getAppName c) (\<lambda>appName.
       let caps = [(''name'', ''Paramedic Sauce test #5git ''),
                   (''browserName'', ''''),
                   (''appiumVersion'', ''1.5.1''),
                   (''deviceOrientation'', ''portrait''),
                   (''deviceType'', ''phone''),
                   (''app'', ''sauce-storage:'' @ appName)]
       in if getPlatformId c = ''android'' then
            ret (caps @ [(''deviceName'', ''Android Emulator''),
                         (''platformVersion'', ''4.4''),
                         (''platformName'', ''Android''),
                         (''appPackage'', ''io.cordova.hellocordova''),
                         (''appActivity'', ''io.cordova.hellocordova.MainActivity'')])
          else if getPlatformId c = ''ios'' then
            ret (caps @ [(''deviceName'', ''iPhone Simulator''),
                         (''platformVersion'', ''9.2''),
                         (''platformName'', ''iOS'')])
          else throw (Error ''Unsupported platform for sauce labs testing''))"

text \<open>
  The callback handed to \<^verbatim>\<open>driver.init\<close> (lines 362-376). wd calls it later, outside
  the resolver of the surrounding \<^verbatim>\<open>Q.promise\<close>, so what it throws is caught by no
  promise. The two handlers of \<^verbatim>\<open>done\<close> quit the driver and settle the surrounding
  promise without a value and without a reason; what they throw is rethrown by
  \<^verbatim>\<open>done\<close>, again to no promise.
\<close>

definition driver_init_callback :: "world \<Rightarrow> reason option \<Rightarrow> jsvalue step" where
  "driver_init_callback w error st =
     (case error of
        Some e \<Rightarrow> uncaught (Error ''Error starting Appium web driver'') st
      | None \<Rightarrow>
          (case thn (waitForConnection w) (\<lambda>_. waitForTests w) st of
             (Ok _, st') \<Rightarrow>
               (case ext w DriverQuit st' of
                  (Fail r, st'') \<Rightarrow> uncaught r st''
                | (_, st'') \<Rightarrow> (Ok Undefined, st''))
           | (Fail _, st') \<Rightarrow>
               (case ext w DriverQuit st' of
                  (Fail r, st'') \<Rightarrow> uncaught r st''
                | (_, st'') \<Rightarrow> (Fail NoReason, st''))
           | (Hang, st') \<Rightarrow> (Hang, st')))"

definition runSauceTests :: "world \<Rightarrow> config \<Rightarrow> jsvalue step" where
  "runSauceTests w c =
     thn (logger ''info'' ''cordova-paramedic: running sauce tests'') (\<lambda>_.
     thn (uploadApp w c) (\<lambda>_.
     let user = env_string w SAUCE_USER_ENV_VAR;
         key = env_string w SAUCE_KEY_ENV_VAR in
     thn (capabilities c) (\<lambda>caps.
     thn (ext w (WdRemote user key)) (\<lambda>_.
     thn (ext w (DriverInit caps)) (\<lambda>_ st.
       case driver_init_completes w of
         Never \<Rightarrow> (Hang, st)
       | After d error \<Rightarrow> driver_init_callback w error (st\<lparr>now := now st + d\<rparr>))))))"

text \<open>
  \<^verbatim>\<open>runTests\<close> (lines 166-198). In the local branch the fulfilment callback calls
  \<^verbatim>\<open>self.waitForConnection()\<close> and then evaluates the argument of
  \<^verbatim>\<open>.catch(reject)\<close>, later that of \<^verbatim>\<open>.then(resolve)\<close>: two reads of
  identifiers. Were both bound, the chain would wait for the watchdog, hand a rejection
  to the first function, wait for the tests and hand the result to the second. Q calls
  a rejection callback with the reason alone, so \<^verbatim>\<open>code\<close> is the reason and
  \<^verbatim>\<open>output\<close> is \<^verbatim>\<open>undefined\<close>.
\<close>

definition runTests :: "world \<Rightarrow> config \<Rightarrow> jsvalue step" where
  "runTests w c =
     (if shouldUseSauce c then
        (let command = getCommandForBuilding c in
         thn (logger ''normal'' (''cordova-paramedic: running command '' @ command)) (\<lambda>_.
         thn (ext w (ExecPromise (getCommandForBuilding c))) (\<lambda>_.
         thn (wait (execPromise_completes w (getCommandForBuilding c))) (\<lambda>_.
         runSauceTests w c))))
      else
        (let command = getCommandForStartingTests c in
         thn (logger ''normal'' (''cordova-paramedic: running command '' @ command)) (\<lambda>_.
         thn (ext w (ExecPromise command)) (\<lambda>_.
         then2 (wait (execPromise_completes w command))
           (\<lambda>_. if shouldWaitForTestResult c then
                   thn waitForConnection_call (\<lambda>expiry.
                   thn (read_identifier ''reject'') (\<lambda>_.
                   thn (read_identifier ''resolve'') (\<lambda>_.
                   thn (then2 (waitForConnection_expiry w expiry) ret (\<lambda>_. ret Undefined)) (\<lambda>_.
                   thn (waitForTests w) (\<lambda>_. ret Undefined)))))
                 else ret Undefined)
           (\<lambda>code.
              thn (if \<not> verbose c then logger ''normal'' ''undefined'' else ret ()) (\<lambda>_.
              thn (logger ''normal''
                     ''cordova-paramedic: unable to run tests; command log is available above'') (\<lambda>_.
              throw (Error (command @ '' returned error code '' @ reason_string code)))))))))"

text \<open>
  The promise chain of \<^verbatim>\<open>run\<close> up to, and without, its \<^verbatim>\<open>.fin\<close> (lines 56-71):
  its outcome is the primary outcome of the run.
\<close>

definition run_chain :: "world \<Rightarrow> config \<Rightarrow> jsvalue step" where
  "run_chain w c =
     thn (thn (ret ()) (\<lambda>_.
            thn (createTempProject w) (\<lambda>_.
            thn (prepareProjectToRunTests w c) (\<lambda>_.
            thn (ext w StartServer) (\<lambda>_.
            wait (startServer_completes w))))))
         (\<lambda>server.
            thn (injectReporters w) (\<lambda>_.
            thn (subcribeForEvents w) (\<lambda>_.
            thn (ext w (GetConnectionUrl (getPlatformId c))) (\<lambda>_.
            let connectionUrl = connection_url w (getPlatformId c) in
            thn (writeMedicConnectionUrl w connectionUrl) (\<lambda>_.
            runTests w c)))))"

text \<open>
  \<^verbatim>\<open>ParamedicRunner.prototype.run\<close> (lines 51-75): it throws what
  \<^verbatim>\<open>checkSauceRequirements\<close> throws, before any promise exists, or returns the promise
  of the chain with \<^verbatim>\<open>cleanUpProject\<close> attached by \<^verbatim>\<open>.fin\<close>.
\<close>

datatype returned = Throws reason | Promise "jsvalue result"

definition run :: "world \<Rightarrow> config \<Rightarrow> runner \<Rightarrow> returned \<times> runner" where
  "run w c st =
     (case checkSauceRequirements w c st of
        (Fail r, st') \<Rightarrow> (Throws r, st')
      | (_, st') \<Rightarrow>
          (case fin (run_chain w c) (cleanUpProject w c) st' of
             (r, st'') \<Rightarrow> (Promise r, st'')))"

subsection \<open>exports.run and the overall timeout\<close>

text \<open>
  What the caller of \<^verbatim>\<open>exports.run\<close> receives, when, and which calls were made
  before and after that moment. \<^verbatim>\<open>promise.timeout(ms, message)\<close> of Q returns a
  promise that takes the outcome of the original one if that settles before a timer of
  \<open>ms\<close> fires, and is rejected with \<^verbatim>\<open>new Error(message)\<close> otherwise; the original
  promise is not cancelled and its callbacks still run when it settles.

  Node sets a timer delay below 1 or above 2147483647 to 1, so a chain that settles at
  time 0, in the ticks of Q, settles before any timer fires. Q arms its timer when
  \<^verbatim>\<open>run\<close> returns, before any other timer of the run, so at a later tie the timeout is
  taken to fire first.

  A watchdog timer that is still armed when the chain settles fires at its expiry and
  calls \<^verbatim>\<open>isDeviceConnected\<close> then (\<open>pending_checks\<close>); it settles a promise that
  nobody waits for.
\<close>

datatype delivered = Thrown reason | ResolvedWith jsvalue | RejectedWith reason

record delivery =
  outcome :: delivered
  delivered_at :: nat
  before_delivery :: "(nat \<times> action) list"
  after_delivery :: "(nat \<times> action) list"

definition new_ParamedicRunner :: "config \<Rightarrow> runner" where
  "new_ParamedicRunner c =
     \<lparr>tempFolder = None, now = 0, trace = [(0, SetVerboseLevel (isVerbose c))], timers = []\<rparr>"

definition timeout_message :: string where
  "timeout_message = ''This test seems to be blocked :: timeout exceeded. Exiting ...''"

definition node_timer_delay :: "nat \<Rightarrow> nat" where
  "node_timer_delay ms = (if ms < 1 \<or> 2147483647 < ms then 1 else ms)"

definition pending_checks :: "runner \<Rightarrow> (nat \<times> action) list" where
  "pending_checks st = map (\<lambda>expiry. (expiry, IsDeviceConnected)) (timers st)"

definition timed_out :: "config \<Rightarrow> runner \<Rightarrow> delivery" where
  "timed_out c st =
     \<lparr>outcome = RejectedWith (Error timeout_message),
      delivered_at = node_timer_delay (getTimeout c),
      before_delivery =
        filter (\<lambda>(t, a). t < node_timer_delay (getTimeout c)) (trace st @ pending_checks st),
      after_delivery =
        filter (\<lambda>(t, a). \<not> t < node_timer_delay (getTimeout c)) (trace st @ pending_checks st)\<rparr>"

definition exports_run :: "world \<Rightarrow> config \<Rightarrow> delivery" where
  "exports_run w c =
     (case run w c (new_ParamedicRunner c) of
        (Throws r, st) \<Rightarrow>
          \<lparr>outcome = Thrown r, delivered_at = 0,
           before_delivery = trace st, after_delivery = []\<rparr>
      | (Promise r, st) \<Rightarrow>
          (case r of
             Hang \<Rightarrow> timed_out c st
           | Ok v \<Rightarrow>
               if now st < node_timer_delay (getTimeout c) then
                 \<lparr>outcome = ResolvedWith v, delivered_at = now st,
                  before_delivery = trace st, after_delivery = pending_checks st\<rparr>
               else timed_out c st
           | Fail e \<Rightarrow>
               if now st < node_timer_delay (getTimeout c) then
                 \<lparr>outcome = RejectedWith e, delivered_at = now st,
                  before_delivery = trace st, after_delivery = pending_checks st\<rparr>
               else timed_out c st))"

definition teardowns :: "(nat \<times> action) list \<Rightarrow> nat" where
  "teardowns tr = length (filter (\<lambda>x. snd x = EnterCleanUpProject) tr)"

subsection \<open>Predicates on steps and traces\<close>

text \<open>
  \<open>adds P m\<close>: whatever the start state, the step \<open>m\<close> only appends to the trace, and
  every call it appends satisfies \<open>P\<close>.
\<close>

definition adds :: "(action \<Rightarrow> bool) \<Rightarrow> 'a step \<Rightarrow> bool" where
  "adds P m =
     (\<forall>st r st'. m st = (r, st') \<longrightarrow>
        (\<exists>new. trace st' = trace st @ new \<and> (\<forall>x \<in> set new. P (snd x))))"

fun is_command :: "action \<Rightarrow> bool" where
  "is_command (ExecPromise cmd) = True"
| "is_command _ = False"

fun is_timer :: "action \<Rightarrow> bool" where
  "is_timer (SetTimeout d) = True"
| "is_timer _ = False"

text \<open>The calls of the set-up phase: no build or run command, no teardown, no timer.\<close>

definition setup_action :: "action \<Rightarrow> bool" where
  "setup_action a = (\<not> is_command a \<and> a \<noteq> EnterCleanUpProject \<and> \<not> is_timer a)"

text \<open>
  The calls made after the build or run command was issued: no further command, no
  teardown, and no timer but the watchdog's.
\<close>

definition wait_action :: "action \<Rightarrow> bool" where
  "wait_action a =
     (\<not> is_command a \<and> a \<noteq> EnterCleanUpProject
      \<and> (is_timer a \<longrightarrow> a = SetTimeout INITIAL_CONNECTION_TIMEOUT))"

text \<open>The command line that \<^verbatim>\<open>runTests\<close> hands to \<^verbatim>\<open>execPromise\<close>.\<close>

definition build_or_run_command :: "config \<Rightarrow> string" where
  "build_or_run_command c =
     (if shouldUseSauce c then getCommandForBuilding c else getCommandForStartingTests c)"

text \<open>
  The calls of the promise chain: no teardown, no timer but the watchdog's, and no command
  but the build or run command.
\<close>

definition chain_action :: "config \<Rightarrow> action \<Rightarrow> bool" where
  "chain_action c a =
     (a \<noteq> EnterCleanUpProject
      \<and> (is_timer a \<longrightarrow> a = SetTimeout INITIAL_CONNECTION_TIMEOUT)
      \<and> (is_command a \<longrightarrow> a = ExecPromise (build_or_run_command c)))"

text \<open>
  \<open>records as m\<close>: whenever the step \<open>m\<close> ends with a value, it has appended to the trace,
  and the calls \<open>as\<close> are among those it appended.
\<close>

definition records :: "action list \<Rightarrow> 'a step \<Rightarrow> bool" where
  "records as m =
     (\<forall>st x st'. m st = (Ok x, st') \<longrightarrow>
        (\<exists>new. trace st' = trace st @ new \<and> set as \<subseteq> snd ` set new))"

text \<open>
  The calls that have to precede the build or run command: the registration of every
  reporter method, of the two device listeners, and the write of the medic file.
\<close>

definition subscriptions_and_file :: "world \<Rightarrow> config \<Rightarrow> action list" where
  "subscriptions_and_file w c =
     map (\<lambda>(route, l). ServerOn route l) (reporter_listeners w) @
     [ServerOn ''deviceLog'' DeviceLogListener,
      ServerOn ''deviceInfo'' DeviceInfoListener,
      WriteFileSync [''www'', ''medic.json''] [(''logurl'', connection_url w (getPlatformId c))]]"

text \<open>
  Everything \<open>run_chain\<close> does before it calls \<^verbatim>\<open>runTests\<close>, as one step: the first
  callback and the second one up to its last statement.
\<close>

definition before_runTests :: "world \<Rightarrow> config \<Rightarrow> unit step" where
  "before_runTests w c =
     thn (createTempProject w) (\<lambda>_.
     thn (prepareProjectToRunTests w c) (\<lambda>_.
     thn (ext w StartServer) (\<lambda>_.
     thn (wait (startServer_completes w)) (\<lambda>_.
     thn (injectReporters w) (\<lambda>_.
     thn (subcribeForEvents w) (\<lambda>_.
     thn (ext w (GetConnectionUrl (getPlatformId c))) (\<lambda>_.
     writeMedicConnectionUrl w (connection_url w (getPlatformId c)))))))))"

subsection \<open>Concrete worlds and configurations\<close>

text \<open>
  A world in which both credentials are set, nothing throws, every external operation
  completes, the device is attached from 10 s on and the suite finishes without a failed
  spec at 400 s; a local and a remote configuration for Android with a timeout of one
  hour.
\<close>

definition quiet_world :: world where
  "quiet_world =
     \<lparr>env = [''SAUCE_USER'' \<mapsto> ''user'', ''SAUCE_ACCESS_KEY'' \<mapsto> ''key''],
      throws = (\<lambda>_. None),
      tmp_name = ''/tmp/t1'',
      storedCWD = ''/home/ci/plugin'',
      paramedic_plugin_path = ''/opt/paramedic/paramedic-plugin'',
      exit_code = (\<lambda>_. 0),
      reporters = [(''console'', [''specDone'', ''jasmineDone''])],
      connection_url = (\<lambda>_. ''http://10.0.2.2:8008''),
      startServer_completes = After 100 None,
      execPromise_completes = (\<lambda>_. After 60000 None),
      upload_completes = After 5000 None,
      driver_init_completes = After 2000 None,
      isDeviceConnected = (\<lambda>t. 10000 \<le> t),
      server_events = [(400000, JasmineDone 0)]\<rparr>"

text \<open>
  Three event streams: a suite that passes after an earlier run's result (at 5 ms, before
  anybody listens), a suite with three failed specs, and a device that drops off.
\<close>

definition passing_suite :: world where
  "passing_suite =
     quiet_world\<lparr>server_events :=
       [(5, JasmineDone 3), (20, SpecDone), (30, JasmineDone 0), (40, Disconnect)]\<rparr>"

definition failing_suite :: world where
  "failing_suite =
     quiet_world\<lparr>server_events := [(20, SpecDone), (30, JasmineDone 3), (40, JasmineDone 0)]\<rparr>"

definition dropped_device :: world where
  "dropped_device =
     quiet_world\<lparr>server_events := [(20, DeviceInfo), (30, Disconnect), (40, JasmineDone 0)]\<rparr>"

text \<open>A runner that has been going for 10 ms and has made no call yet.\<close>

definition idle_runner :: runner where
  "idle_runner = \<lparr>tempFolder = None, now = 10, trace = [], timers = []\<rparr>"

definition local_run :: config where
  "local_run =
     \<lparr>getPlatform = ''android'', getPlatformId = ''android'', getAction = ''run'',
      getArgs = None, shouldUseSauce = False, getShouldCleanUpAfterRun = True,
      getTimeout = 3600000, isVerbose = False, verbose = False\<rparr>"

definition sauce_run :: config where
  "sauce_run = local_run\<lparr>shouldUseSauce := True\<rparr>"

definition build_only :: config where
  "build_only = local_run\<lparr>getAction := ''build''\<rparr>"

text \<open>The same world, except that \<^verbatim>\<open>tmp.dirSync\<close> throws (the disk is full).\<close>

definition disk_full :: world where
  "disk_full =
     quiet_world\<lparr>throws :=
       (\<lambda>a. if a = TmpDirSync then Some (Error ''ENOSPC: no space left on device'')
            else None)\<rparr>"

text \<open>The same world, except that wd calls the callback of \<^verbatim>\<open>driver.init\<close> with an error.\<close>

definition driver_refused :: world where
  "driver_refused =
     quiet_world\<lparr>driver_init_completes := After 2000 (Some (Error ''ECONNREFUSED''))\<rparr>"

section \<open>Facts about the model\<close>

subsection \<open>The promise of waitForTests\<close>

lemma emit_settled: "p \<noteq> Pending \<Longrightarrow> emit e p = p"
  by (cases e; cases p) (simp_all add: jasmineDone_listener_def disconnect_listener_def
      resolve_def reject_def)

lemma emit_quiet: "\<not> settles e \<Longrightarrow> emit e p = p"
  by (cases e) (simp_all add: settles_def)

lemma deliver_events_settled:
  "p \<noteq> Pending \<Longrightarrow> deliver_events evs (p, ts) = (p, ts)"
  by (induction evs arbitrary: ts) (auto simp: emit_settled)

lemma deliver_events_quiet:
  "\<forall>x \<in> set pre. \<not> settles (snd x) \<Longrightarrow>
   deliver_events (pre @ evs) (p, ts) = deliver_events evs (p, ts)"
  by (induction pre arbitrary: ts) (auto simp: emit_quiet)

lemma deliver_events_first_jasmineDone:
  assumes "\<forall>x \<in> set pre. \<not> settles (snd x)"
  shows "deliver_events (pre @ (t, JasmineDone n) # post) (Pending, t0)
           = (Fulfilled (Boolean (n = 0)), t)"
proof -
  have "deliver_events (pre @ (t, JasmineDone n) # post) (Pending, t0)
          = deliver_events ((t, JasmineDone n) # post) (Pending, t0)"
    using assms by (rule deliver_events_quiet)
  also have "\<dots> = (Fulfilled (Boolean (n = 0)), t)"
    by (simp add: jasmineDone_listener_def resolve_def deliver_events_settled)
  finally show ?thesis .
qed

lemma deliver_events_first_disconnect:
  assumes "\<forall>x \<in> set pre. \<not> settles (snd x)"
  shows "deliver_events (pre @ (t, Disconnect) # post) (Pending, t0)
           = (Rejected (Error ''device is disconnected before passing the tests''), t)"
proof -
  have "deliver_events (pre @ (t, Disconnect) # post) (Pending, t0)
          = deliver_events ((t, Disconnect) # post) (Pending, t0)"
    using assms by (rule deliver_events_quiet)
  also have "\<dots> = (Rejected (Error ''device is disconnected before passing the tests''), t)"
    by (simp add: disconnect_listener_def reject_def deliver_events_settled)
  finally show ?thesis .
qed

subsection \<open>Steps and the calls they make\<close>

lemma thn_assoc: "thn (thn m f) g = thn m (\<lambda>x. thn (f x) g)"
  by (rule ext) (simp add: thn_def split: prod.splits result.splits)

lemma thn_ret: "thn (ret x) f = f x"
  by (rule ext) (simp add: thn_def ret_def)

lemma run_chain_factored: "run_chain w c = thn (before_runTests w c) (\<lambda>_. runTests w c)"
  by (simp add: run_chain_def before_runTests_def thn_assoc thn_ret Let_def)

lemma adds_mono: "adds P m \<Longrightarrow> (\<And>a. P a \<Longrightarrow> Q a) \<Longrightarrow> adds Q m"
  unfolding adds_def by blast

lemma adds_ret: "adds P (ret x)"
  by (simp add: adds_def ret_def)

lemma adds_throw: "adds P (throw r)"
  by (simp add: adds_def throw_def)

lemma adds_wait: "adds P (wait a)"
  by (auto simp: adds_def wait_def split: completion.splits option.splits)

lemma adds_tempFolder_name: "adds P tempFolder_name"
  by (auto simp: adds_def tempFolder_name_def split: option.splits)

lemma adds_read_identifier: "adds P (read_identifier x)"
  by (simp add: adds_def read_identifier_def ret_def throw_def)

lemma adds_record_call: "P a \<Longrightarrow> adds P (record_call a)"
  by (simp add: adds_def record_call_def)

lemma adds_thn:
  assumes "adds P m" and "\<And>x. adds P (f x)"
  shows "adds P (thn m f)"
  unfolding adds_def
proof (intro allI impI)
  fix st r st'
  assume run: "thn m f st = (r, st')"
  obtain r1 st1 where m: "m st = (r1, st1)" by (cases "m st")
  from assms(1) m obtain new1 where
    n1: "trace st1 = trace st @ new1" "\<forall>x \<in> set new1. P (snd x)"
    unfolding adds_def by blast
  show "\<exists>new. trace st' = trace st @ new \<and> (\<forall>x \<in> set new. P (snd x))"
  proof (cases r1)
    case (Ok x)
    with run m have "f x st1 = (r, st')" by (simp add: thn_def)
    with assms(2) obtain new2 where
      "trace st' = trace st1 @ new2" "\<forall>x \<in> set new2. P (snd x)"
      unfolding adds_def by blast
    with n1 show ?thesis by (intro exI [of _ "new1 @ new2"]) auto
  next
    case (Fail e)
    with run m have "st' = st1" by (simp add: thn_def)
    with n1 show ?thesis by blast
  next
    case Hang
    with run m have "st' = st1" by (simp add: thn_def)
    with n1 show ?thesis by blast
  qed
qed

lemma adds_ext: "P a \<Longrightarrow> adds P (ext w a)"
  unfolding ext_def
  by (intro adds_thn adds_record_call) (auto split: option.splits intro: adds_ret adds_throw)

lemma adds_logger: "P (Logger l m) \<Longrightarrow> adds P (logger l m)"
  by (simp add: logger_def adds_record_call)

lemma adds_seq: "(\<And>m. m \<in> set ms \<Longrightarrow> adds P m) \<Longrightarrow> adds P (seq ms)"
  by (induction ms) (auto intro: adds_ret adds_thn)


lemma adds_then2:
  assumes "adds P m" and "\<And>x. adds P (f x)" and "\<And>e. adds P (g e)"
  shows "adds P (then2 m f g)"
  unfolding adds_def
proof (intro allI impI)
  fix st r st'
  assume run: "then2 m f g st = (r, st')"
  obtain r1 st1 where m: "m st = (r1, st1)" by (cases "m st")
  from assms(1) m obtain new1 where
    n1: "trace st1 = trace st @ new1" "\<forall>x \<in> set new1. P (snd x)"
    unfolding adds_def by blast
  show "\<exists>new. trace st' = trace st @ new \<and> (\<forall>x \<in> set new. P (snd x))"
  proof (cases r1)
    case (Ok x)
    with run m have "f x st1 = (r, st')" by (simp add: then2_def)
    with assms(2) obtain new2 where
      "trace st' = trace st1 @ new2" "\<forall>x \<in> set new2. P (snd x)"
      unfolding adds_def by blast
    with n1 show ?thesis by (intro exI [of _ "new1 @ new2"]) auto
  next
    case (Fail e)
    with run m have "g e st1 = (r, st')" by (simp add: then2_def)
    with assms(3) obtain new2 where
      "trace st' = trace st1 @ new2" "\<forall>x \<in> set new2. P (snd x)"
      unfolding adds_def by blast
    with n1 show ?thesis by (intro exI [of _ "new1 @ new2"]) auto
  next
    case Hang
    with run m have "st' = st1" by (simp add: then2_def)
    with n1 show ?thesis by blast
  qed
qed

lemma adds_uncaught: "P (Uncaught r) \<Longrightarrow> adds P (uncaught r)"
  by (simp add: adds_def uncaught_def)

lemma adds_assign_tempFolder: "adds P (\<lambda>st. (Ok (), st\<lparr>tempFolder := x\<rparr>))"
  by (simp add: adds_def)

lemmas adds_intros =
  adds_thn adds_then2 adds_seq adds_ext adds_logger adds_ret adds_throw adds_wait
  adds_tempFolder_name adds_read_identifier adds_record_call adds_uncaught
  adds_assign_tempFolder

lemma adds_createTempProject: "adds setup_action (createTempProject w)"
  unfolding createTempProject_def
  by (auto intro!: adds_intros simp: setup_action_def)

lemma adds_installPlugins: "adds setup_action (installPlugins w)"
  unfolding installPlugins_def
  by (auto intro!: adds_intros simp: setup_action_def)

lemma adds_setUpStartPage: "adds setup_action (setUpStartPage w)"
  unfolding setUpStartPage_def
  by (auto intro!: adds_intros simp: setup_action_def)

lemma adds_installPlatform: "adds setup_action (installPlatform w c)"
  unfolding installPlatform_def
  by (auto intro!: adds_intros simp: setup_action_def)

lemma adds_checkPlatformRequirements: "adds setup_action (checkPlatformRequirements w c)"
  unfolding checkPlatformRequirements_def
  by (auto intro!: adds_intros simp: setup_action_def)

lemma adds_prepareProjectToRunTests: "adds setup_action (prepareProjectToRunTests w c)"
  unfolding prepareProjectToRunTests_def
  by (auto intro!: adds_thn adds_ret adds_installPlugins adds_setUpStartPage
      adds_installPlatform adds_checkPlatformRequirements)

lemma adds_injectReporters: "adds setup_action (injectReporters w)"
  unfolding injectReporters_def
  by (auto intro!: adds_intros simp: setup_action_def)

lemma adds_subcribeForEvents: "adds setup_action (subcribeForEvents w)"
  unfolding subcribeForEvents_def
  by (auto intro!: adds_intros simp: setup_action_def)

lemma adds_writeMedicConnectionUrl: "adds setup_action (writeMedicConnectionUrl w url)"
  unfolding writeMedicConnectionUrl_def
  by (auto intro!: adds_intros simp: setup_action_def)

lemma adds_before_runTests: "adds setup_action (before_runTests w c)"
  unfolding before_runTests_def
  by (intro adds_thn adds_createTempProject adds_prepareProjectToRunTests adds_wait
      adds_injectReporters adds_subcribeForEvents adds_writeMedicConnectionUrl adds_ext)
    (simp_all add: setup_action_def)


lemma adds_waitForTests: "adds wait_action (waitForTests w)"
  unfolding waitForTests_def
proof (intro adds_thn adds_logger adds_ext)
  show "adds wait_action (\<lambda>st.
          case deliver_events (filter (\<lambda>(t, e). now st \<le> t) (server_events w)) (Pending, now st) of
            (Pending, _) \<Rightarrow> (Hang, st)
          | (Fulfilled v, t) \<Rightarrow>
              (Ok v, st\<lparr>now := t,
                        trace := trace st @
                          [(t, Logger ''info'' ''cordova-paramedic: tests have been completed'')]\<rparr>)
          | (Rejected r, t) \<Rightarrow> (Fail r, st\<lparr>now := t\<rparr>))"
    by (auto simp: adds_def wait_action_def split: prod.splits promise.splits)
qed (simp_all add: wait_action_def)

lemma adds_waitForConnection_call: "adds wait_action waitForConnection_call"
  by (simp add: adds_def waitForConnection_call_def wait_action_def)

lemma adds_waitForConnection_expiry: "adds wait_action (waitForConnection_expiry w t)"
  by (simp add: adds_def waitForConnection_expiry_def wait_action_def Let_def)

lemma adds_waitForConnection: "adds wait_action (waitForConnection w)"
  unfolding waitForConnection_def
  by (intro adds_thn adds_waitForConnection_call adds_waitForConnection_expiry)

lemma adds_getAppName: "adds P (getAppName c)"
  unfolding getAppName_def by (auto intro!: adds_intros)

lemma adds_getBinaryPath: "adds P (getBinaryPath c)"
  unfolding getBinaryPath_def by (auto intro!: adds_intros)

lemma adds_capabilities: "adds P (capabilities c)"
  unfolding capabilities_def Let_def by (auto intro!: adds_intros adds_getAppName)

lemma adds_uploadApp: "adds wait_action (uploadApp w c)"
  unfolding uploadApp_def Let_def
  by (intro adds_thn adds_getAppName adds_getBinaryPath adds_logger adds_ext adds_wait)
    (simp_all add: wait_action_def)

lemma adds_driver_init_callback: "adds wait_action (driver_init_callback w error)"
  unfolding adds_def
proof (intro allI impI)
  fix st r st'
  assume run: "driver_init_callback w error st = (r, st')"
  have inner: "adds wait_action (thn (waitForConnection w) (\<lambda>_. waitForTests w))"
    by (intro adds_thn adds_waitForConnection adds_waitForTests)
  have quit: "adds wait_action (ext w DriverQuit)"
    by (rule adds_ext) (simp add: wait_action_def)
  show "\<exists>new. trace st' = trace st @ new \<and> (\<forall>x \<in> set new. wait_action (snd x))"
  proof (cases error)
    case (Some e)
    with run show ?thesis
      by (auto simp: driver_init_callback_def uncaught_def wait_action_def)
  next
    case None
    obtain r1 st1 where i: "thn (waitForConnection w) (\<lambda>_. waitForTests w) st = (r1, st1)"
      by (cases "thn (waitForConnection w) (\<lambda>_. waitForTests w) st")
    from inner i obtain new1 where
      n1: "trace st1 = trace st @ new1" "\<forall>x \<in> set new1. wait_action (snd x)"
      unfolding adds_def by blast
    obtain r2 st2 where q: "ext w DriverQuit st1 = (r2, st2)"
      by (cases "ext w DriverQuit st1")
    from quit q obtain new2 where
      n2: "trace st2 = trace st1 @ new2" "\<forall>x \<in> set new2. wait_action (snd x)"
      unfolding adds_def by blast
    have n12: "trace st2 = trace st @ (new1 @ new2)"
      "\<forall>x \<in> set (new1 @ new2). wait_action (snd x)"
      using n1 n2 by auto
    have u: "trace st2 @ [(now st2, Uncaught e)] = trace st @ (new1 @ new2 @ [(now st2, Uncaught e)])"
      "\<forall>x \<in> set (new1 @ new2 @ [(now st2, Uncaught e)]). wait_action (snd x)" for e
      using n12 by (auto simp: wait_action_def)
    show ?thesis
    proof (cases r1)
      case Hang
      with run None i n1 show ?thesis
        by (auto simp: driver_init_callback_def)
    next
      case (Ok v)
      show ?thesis
      proof (cases r2)
        case (Fail e)
        with run None i q Ok have "trace st' = trace st2 @ [(now st2, Uncaught e)]"
          by (auto simp: driver_init_callback_def uncaught_def)
        with u show ?thesis by metis
      next
        case Hang
        with run None i q Ok have "st' = st2"
          by (auto simp: driver_init_callback_def)
        with n12 show ?thesis by metis
      next
        case (Ok u)
        with run None i q \<open>r1 = Ok v\<close> have "st' = st2"
          by (auto simp: driver_init_callback_def)
        with n12 show ?thesis by metis
      qed
    next
      case (Fail e1)
      show ?thesis
      proof (cases r2)
        case (Fail e)
        with run None i q \<open>r1 = Fail e1\<close> have "trace st' = trace st2 @ [(now st2, Uncaught e)]"
          by (auto simp: driver_init_callback_def uncaught_def)
        with u show ?thesis by metis
      next
        case Hang
        with run None i q Fail have "st' = st2"
          by (auto simp: driver_init_callback_def)
        with n12 show ?thesis by metis
      next
        case (Ok u)
        with run None i q Fail have "st' = st2"
          by (auto simp: driver_init_callback_def)
        with n12 show ?thesis by metis
      qed
    qed
  qed
qed


lemma adds_later:
  assumes "adds P m"
  shows "adds P (\<lambda>st. m (st\<lparr>now := now st + d\<rparr>))"
  unfolding adds_def
proof (intro allI impI)
  fix st r st'
  assume "m (st\<lparr>now := now st + d\<rparr>) = (r, st')"
  with assms have "\<exists>new. trace st' = trace (st\<lparr>now := now st + d\<rparr>) @ new
      \<and> (\<forall>x \<in> set new. P (snd x))"
    unfolding adds_def by blast
  then show "\<exists>new. trace st' = trace st @ new \<and> (\<forall>x \<in> set new. P (snd x))"
    by simp
qed

lemma adds_runSauceTests: "adds wait_action (runSauceTests w c)"
  unfolding runSauceTests_def Let_def
proof (intro adds_thn adds_logger adds_uploadApp adds_capabilities adds_ext)
  show "adds wait_action (\<lambda>st.
          case driver_init_completes w of
            Never \<Rightarrow> (Hang, st)
          | After d error \<Rightarrow> driver_init_callback w error (st\<lparr>now := now st + d\<rparr>))"
  proof (cases "driver_init_completes w")
    case Never
    then show ?thesis by (simp add: adds_def)
  next
    case (After d error)
    then show ?thesis
      using adds_later [OF adds_driver_init_callback, of w error d] by simp
  qed
qed (simp_all add: wait_action_def)

lemma adds_runTests: "adds (chain_action c) (runTests w c)"
proof -
  have wait: "adds (chain_action c) m" if "adds wait_action m" for m :: "jsvalue step"
    using that by (rule adds_mono) (simp add: wait_action_def chain_action_def)
  show ?thesis
  proof (cases "shouldUseSauce c")
    case True
    then show ?thesis
      unfolding runTests_def Let_def
      by (auto intro!: adds_thn adds_logger adds_ext adds_wait wait [OF adds_runSauceTests]
          simp: chain_action_def build_or_run_command_def)
  next
    case False
    then show ?thesis
      unfolding runTests_def Let_def
      by (auto intro!: adds_thn adds_then2 adds_logger adds_ext adds_wait adds_ret adds_throw
          adds_read_identifier wait [OF adds_waitForTests]
          adds_mono [OF adds_waitForConnection_call]
          adds_mono [OF adds_waitForConnection_expiry]
          simp: chain_action_def wait_action_def build_or_run_command_def)
  qed
qed

lemma setup_is_chain_action: "setup_action a \<Longrightarrow> chain_action c a"
  by (simp add: setup_action_def chain_action_def)

lemma adds_run_chain: "adds (chain_action c) (run_chain w c)"
  unfolding run_chain_factored
  by (intro adds_thn adds_runTests adds_mono [OF adds_before_runTests] setup_is_chain_action)

lemma checkSauceRequirements_pure:
  "checkSauceRequirements w c st = (r, st') \<Longrightarrow> st' = st \<and> r \<noteq> Hang"
  by (auto simp: checkSauceRequirements_def ret_def throw_def split: if_splits)

lemma cleanUpProject_once:
  assumes "cleanUpProject w c st = (r, st')"
  shows "r \<noteq> Hang \<and> now st' = now st \<and>
         (\<exists>new. trace st' = trace st @ (now st, EnterCleanUpProject) # new \<and>
                (\<forall>x \<in> set new. fst x = now st \<and> setup_action (snd x)))"
  using assms
  by (auto simp: cleanUpProject_def thn_def record_call_def ext_def logger_def
      tempFolder_name_def ret_def throw_def setup_action_def
      split: if_splits option.splits prod.splits result.splits)

lemma string_of_nat_300: "string_of_nat 300 = ''300''"
  by (simp add: string_of_nat.simps)

lemma ERR_MSG_text: "ERR_MSG = ''Seems like device not connected to local server in 300 secs''"
  by (simp add: ERR_MSG_def INITIAL_CONNECTION_TIMEOUT_def string_of_nat_300)

subsection \<open>Evaluation of concrete runs\<close>

lemmas step_defs =
  ret_def throw_def thn_def then2_def fin_def record_call_def ext_def wait_def uncaught_def
  logger_def tempFolder_name_def read_identifier_def identifiers_in_scope_def falsy_def
  env_string_def

lemmas method_defs =
  shouldWaitForTestResult_def checkSauceRequirements_def createTempProject_def
  installPlugins_def setUpStartPage_def installPlatform_def checkPlatformRequirements_def
  prepareProjectToRunTests_def lifecycle_routes_def reporter_listeners_def
  injectReporters_def subcribeForEvents_def writeMedicConnectionUrl_def waitForTests_def
  waitForConnection_call_def waitForConnection_expiry_def waitForConnection_def
  cleanUpProject_def getCommandForStartingTests_def getCommandForBuilding_def
  getBinaryPath_def getAppName_def uploadApp_def capabilities_def driver_init_callback_def
  runSauceTests_def runTests_def run_chain_factored before_runTests_def run_def
  new_ParamedicRunner_def timed_out_def exports_run_def teardowns_def
  node_timer_delay_def pending_checks_def null_name_message_def
  INITIAL_CONNECTION_TIMEOUT_def SAUCE_USER_ENV_VAR_def SAUCE_KEY_ENV_VAR_def
  jasmineDone_listener_def disconnect_listener_def resolve_def reject_def

lemmas example_defs =
  quiet_world_def local_run_def sauce_run_def build_only_def disk_full_def driver_refused_def
  passing_suite_def failing_suite_def dropped_device_def idle_runner_def

subsection \<open>The shape of a run\<close>

lemma run_shape:
  assumes "run w c st = (res, st')"
  obtains (throws) e where "res = Throws e" "st' = st"
    | (hangs) "res = Promise Hang" "run_chain w c st = (Hang, st')"
    | (settles) r st1 rc where "r \<noteq> Hang" "run_chain w c st = (r, st1)"
        "cleanUpProject w c st1 = (rc, st')" "rc \<noteq> Hang"
        "res = Promise (case rc of Fail e \<Rightarrow> Fail e | _ \<Rightarrow> r)"
proof -
  obtain r0 st0 where chk: "checkSauceRequirements w c st = (r0, st0)"
    by (cases "checkSauceRequirements w c st")
  then have st0: "st0 = st" and r0: "r0 \<noteq> Hang"
    using checkSauceRequirements_pure by blast+
  show ?thesis
  proof (cases r0)
    case (Fail e)
    with assms chk st0 have "res = Throws e" "st' = st"
      by (simp_all add: run_def)
    then show ?thesis by (rule throws)
  next
    case Hang
    with r0 show ?thesis by simp
  next
    case (Ok u)
    obtain r st1 where chain: "run_chain w c st = (r, st1)"
      by (cases "run_chain w c st")
    show ?thesis
    proof (cases "r = Hang")
      case True
      with assms chk st0 Ok chain have "res = Promise Hang" "st' = st1"
        by (auto simp: run_def fin_def)
      with chain True show ?thesis by (auto intro: hangs)
    next
      case False
      obtain rc st2 where cl: "cleanUpProject w c st1 = (rc, st2)"
        by (cases "cleanUpProject w c st1")
      then have rc: "rc \<noteq> Hang" using cleanUpProject_once by blast
      from assms chk st0 Ok chain cl False rc
      have "res = Promise (case rc of Fail e \<Rightarrow> Fail e | _ \<Rightarrow> r)" "st' = st2"
        by (cases r; cases rc; simp add: run_def fin_def)+
      with False chain cl rc show ?thesis by (auto intro: settles)
    qed
  qed
qed

subsection \<open>Counting teardowns\<close>

lemma teardowns_append: "teardowns (xs @ ys) = teardowns xs + teardowns ys"
  by (simp add: teardowns_def)

lemma teardowns_filter_none:
  "\<forall>x \<in> set xs. snd x \<noteq> EnterCleanUpProject \<Longrightarrow> teardowns (filter p xs) = 0"
  by (simp add: teardowns_def)

lemma teardowns_partition:
  "teardowns (filter p xs) + teardowns (filter (\<lambda>x. \<not> p x) xs) = teardowns xs"
  by (induction xs) (auto simp: teardowns_def)

lemma teardowns_pending_checks: "teardowns (filter p (pending_checks st)) = 0"
  by (rule teardowns_filter_none) (auto simp: pending_checks_def)

lemma run_chain_no_teardown:
  assumes "run_chain w c st = (r, st1)"
  obtains new where "trace st1 = trace st @ new" "\<forall>x \<in> set new. snd x \<noteq> EnterCleanUpProject"
proof -
  from adds_run_chain [of c w] assms obtain new where
    "trace st1 = trace st @ new" "\<forall>x \<in> set new. chain_action c (snd x)"
    unfolding adds_def by blast
  then show ?thesis
    by (intro that [of new]) (auto simp: chain_action_def)
qed

text \<open>
  The teardown count of a run, by the three ways \<open>run\<close> can end: thrown, pending for
  ever, settled.
\<close>

lemma run_teardowns:
  assumes "run w c (new_ParamedicRunner c) = (res, st)"
  shows "(\<forall>e. res = Throws e \<longrightarrow> trace st = [(0, SetVerboseLevel (isVerbose c))])
       \<and> (res = Promise Hang \<longrightarrow> (\<forall>x \<in> set (trace st). snd x \<noteq> EnterCleanUpProject))
       \<and> ((\<exists>v. res = Promise (Ok v)) \<or> (\<exists>e. res = Promise (Fail e)) \<longrightarrow>
            teardowns (trace st) = 1
            \<and> (\<forall>x \<in> set (trace st). snd x = EnterCleanUpProject \<longrightarrow> fst x = now st))"
  using assms
proof (cases rule: run_shape)
  case (throws e)
  then show ?thesis by (simp add: new_ParamedicRunner_def)
next
  case hangs
  from hangs(2) obtain new where
    "trace st = trace (new_ParamedicRunner c) @ new"
      "\<forall>x \<in> set new. snd x \<noteq> EnterCleanUpProject"
    by (rule run_chain_no_teardown)
  then have "\<forall>x \<in> set (trace st). snd x \<noteq> EnterCleanUpProject"
    by (auto simp: new_ParamedicRunner_def)
  with hangs(1) show ?thesis by simp
next
  case (settles r st1 rc)
  from settles(2) obtain new where
    "trace st1 = trace (new_ParamedicRunner c) @ new"
      "\<forall>x \<in> set new. snd x \<noteq> EnterCleanUpProject"
    by (rule run_chain_no_teardown)
  then have chain0: "\<forall>x \<in> set (trace st1). snd x \<noteq> EnterCleanUpProject"
    by (auto simp: new_ParamedicRunner_def)
  from cleanUpProject_once [OF settles(3)] obtain rest where
    now: "now st = now st1" and
    rest: "trace st = trace st1 @ (now st1, EnterCleanUpProject) # rest"
      "\<forall>x \<in> set rest. fst x = now st1 \<and> setup_action (snd x)"
    by blast
  have rest0: "\<forall>x \<in> set rest. snd x \<noteq> EnterCleanUpProject"
    using rest(2) by (auto simp: setup_action_def)
  have once: "teardowns (trace st) = 1"
    using chain0 rest0 by (simp add: rest(1) teardowns_def)
  have stamp: "\<forall>x \<in> set (trace st). snd x = EnterCleanUpProject \<longrightarrow> fst x = now st"
    using chain0 rest0 now by (auto simp: rest(1))
  have "res \<noteq> Promise Hang" "\<And>e. res \<noteq> Throws e"
    using settles(1,4,5) by (cases rc; simp)+
  with once stamp show ?thesis by simp
qed

subsection \<open>What the set-up phase records\<close>

lemma records_of_adds: "adds P m \<Longrightarrow> records [] m"
  unfolding adds_def records_def by fastforce

lemma records_ext: "records [a] (ext w a)"
  by (auto simp: records_def ext_def thn_def record_call_def ret_def throw_def
      split: option.splits)

lemma records_thn:
  assumes "records as m" and "\<And>x. records bs (f x)"
  shows "records (as @ bs) (thn m f)"
  unfolding records_def
proof (intro allI impI)
  fix st y st'
  assume run: "thn m f st = (Ok y, st')"
  obtain r1 st1 where m: "m st = (r1, st1)" by (cases "m st")
  with run obtain x where x: "r1 = Ok x" and f: "f x st1 = (Ok y, st')"
    by (cases r1) (auto simp: thn_def)
  from assms(1) m x obtain new1 where
    n1: "trace st1 = trace st @ new1" "set as \<subseteq> snd ` set new1"
    unfolding records_def by blast
  from assms(2) f obtain new2 where
    n2: "trace st' = trace st1 @ new2" "set bs \<subseteq> snd ` set new2"
    unfolding records_def by blast
  from n1 n2 show "\<exists>new. trace st' = trace st @ new \<and> set (as @ bs) \<subseteq> snd ` set new"
    by (intro exI [of _ "new1 @ new2"]) auto
qed

lemma records_seq_ext:
  "records (map g xs) (seq (map (\<lambda>x. ext w (g x)) xs))"
proof (induction xs)
  case Nil
  show ?case by (simp add: records_def ret_def)
next
  case (Cons x xs)
  have "records ([g x] @ map g xs) (thn (ext w (g x)) (\<lambda>_. seq (map (\<lambda>x. ext w (g x)) xs)))"
    by (intro records_thn records_ext Cons.IH)
  then show ?case by simp
qed

lemma records_injectReporters:
  "records (map (\<lambda>(route, l). ServerOn route l) (reporter_listeners w)) (injectReporters w)"
proof -
  have eq: "(\<lambda>(route, l). ext w (ServerOn route l))
              = (\<lambda>x. ext w ((\<lambda>(route, l). ServerOn route l) x))"
    by (auto simp: fun_eq_iff)
  have "records ([] @ map (\<lambda>(route, l). ServerOn route l) (reporter_listeners w))
          (injectReporters w)"
    unfolding injectReporters_def eq
    by (intro records_thn records_seq_ext records_of_adds [OF adds_ext [of "\<lambda>_. True"]]) simp
  then show ?thesis by simp
qed

lemma records_subcribeForEvents:
  "records [ServerOn ''deviceLog'' DeviceLogListener, ServerOn ''deviceInfo'' DeviceInfoListener]
     (subcribeForEvents w)"
proof -
  have "records ([ServerOn ''deviceLog'' DeviceLogListener]
                 @ ([ServerOn ''deviceInfo'' DeviceInfoListener] @ []))
          (thn (ext w (ServerOn ''deviceLog'' DeviceLogListener))
             (\<lambda>_. thn (ext w (ServerOn ''deviceInfo'' DeviceInfoListener)) (\<lambda>_. ret ())))"
    by (intro records_thn records_ext records_of_adds [OF adds_ret])
  then show ?thesis
    by (simp add: subcribeForEvents_def)
qed

lemma records_writeMedicConnectionUrl:
  "records [WriteFileSync [''www'', ''medic.json''] [(''logurl'', url)]]
     (writeMedicConnectionUrl w url)"
proof -
  have "records ([] @ ([WriteFileSync [''www'', ''medic.json''] [(''logurl'', url)]] @ []))
          (thn (logger ''normal'' (''cordova-paramedic: writing medic log url to project '' @ url))
             (\<lambda>_. thn (ext w (WriteFileSync [''www'', ''medic.json''] [(''logurl'', url)]))
                     (\<lambda>_. ret ())))"
    by (intro records_thn records_ext records_of_adds [OF adds_ret]
        records_of_adds [OF adds_logger [of "\<lambda>_. True"]]) simp
  then show ?thesis
    by (simp add: writeMedicConnectionUrl_def)
qed

lemma records_before_runTests:
  "records (subscriptions_and_file w c) (before_runTests w c)"
proof -
  have "records ([] @ [] @ [] @ [] @
                 map (\<lambda>(route, l). ServerOn route l) (reporter_listeners w) @
                 [ServerOn ''deviceLog'' DeviceLogListener,
                  ServerOn ''deviceInfo'' DeviceInfoListener] @
                 [] @
                 [WriteFileSync [''www'', ''medic.json'']
                    [(''logurl'', connection_url w (getPlatformId c))]])
          (before_runTests w c)"
    unfolding before_runTests_def
    by (intro records_thn records_injectReporters records_subcribeForEvents
        records_writeMedicConnectionUrl
        records_of_adds [OF adds_createTempProject]
        records_of_adds [OF adds_prepareProjectToRunTests]
        records_of_adds [OF adds_wait [of "\<lambda>_. True"]]
        records_of_adds [OF adds_ext [of "\<lambda>_. True"]]) simp_all
  then show ?thesis
    by (simp add: subscriptions_and_file_def)
qed

subsection \<open>Where the build or run command stands in the trace\<close>

lemma append_split_at:
  assumes "xs @ ys = pre @ e # post" and "e \<notin> set xs"
  shows "\<exists>zs. pre = xs @ zs \<and> ys = zs @ e # post"
proof -
  from assms(1) obtain us where
    "(xs = pre @ us \<and> us @ ys = e # post) \<or> (xs @ us = pre \<and> ys = us @ e # post)"
    by (auto simp: append_eq_append_conv2)
  then show ?thesis
  proof
    assume a: "xs = pre @ us \<and> us @ ys = e # post"
    show ?thesis
    proof (cases us)
      case Nil
      with a show ?thesis by auto
    next
      case (Cons u us')
      with a have "u = e" by simp
      with a Cons assms(2) show ?thesis by auto
    qed
  next
    assume "xs @ us = pre \<and> ys = us @ e # post"
    then show ?thesis by auto
  qed
qed

lemma run_chain_structure:
  assumes "run_chain w c st0 = (r, s1)"
  obtains S R where "trace s1 = trace st0 @ S @ R"
    and "\<forall>x \<in> set S. setup_action (snd x)"
    and "\<forall>x \<in> set R. chain_action c (snd x)"
    and "R \<noteq> [] \<longrightarrow> set (subscriptions_and_file w c) \<subseteq> snd ` set S"
proof -
  obtain rb sb where b: "before_runTests w c st0 = (rb, sb)"
    by (cases "before_runTests w c st0")
  from adds_before_runTests [of w c] b obtain S where
    S: "trace sb = trace st0 @ S" "\<forall>x \<in> set S. setup_action (snd x)"
    unfolding adds_def by blast
  show ?thesis
  proof (cases rb)
    case (Ok u)
    with assms b have rt: "runTests w c sb = (r, s1)"
      by (simp add: run_chain_factored thn_def)
    from adds_runTests [of c w] rt obtain R where
      R: "trace s1 = trace sb @ R" "\<forall>x \<in> set R. chain_action c (snd x)"
      unfolding adds_def by blast
    from records_before_runTests [of w c] b Ok obtain new where
      "trace sb = trace st0 @ new" "set (subscriptions_and_file w c) \<subseteq> snd ` set new"
      unfolding records_def by blast
    with S(1) have "set (subscriptions_and_file w c) \<subseteq> snd ` set S" by simp
    with S R show ?thesis by (intro that [of S R]) simp_all
  next
    case (Fail e)
    with assms b have "s1 = sb" by (simp add: run_chain_factored thn_def)
    with S show ?thesis by (intro that [of S "[]"]) simp_all
  next
    case Hang
    with assms b have "s1 = sb" by (simp add: run_chain_factored thn_def)
    with S show ?thesis by (intro that [of S "[]"]) simp_all
  qed
qed

lemma run_trace_structure:
  assumes "run w c (new_ParamedicRunner c) = (res, st)"
  obtains X Y where "trace st = X @ Y"
    and "\<forall>x \<in> set X. \<not> is_command (snd x)"
    and "\<forall>y \<in> set Y. is_command (snd y) \<longrightarrow> snd y = ExecPromise (build_or_run_command c)"
    and "(\<exists>y \<in> set Y. is_command (snd y)) \<longrightarrow>
           set (subscriptions_and_file w c) \<subseteq> snd ` set X"
  using assms
proof (cases rule: run_shape)
  case (throws e)
  then show ?thesis
    by (intro that [of "trace st" "[]"]) (simp_all add: new_ParamedicRunner_def)
next
  case hangs
  from hangs(2) obtain S R where
    S: "trace st = trace (new_ParamedicRunner c) @ S @ R"
      "\<forall>x \<in> set S. setup_action (snd x)" "\<forall>x \<in> set R. chain_action c (snd x)"
      "R \<noteq> [] \<longrightarrow> set (subscriptions_and_file w c) \<subseteq> snd ` set S"
    by (rule run_chain_structure)
  show ?thesis
  proof (rule that [of "trace (new_ParamedicRunner c) @ S" R])
    show "trace st = (trace (new_ParamedicRunner c) @ S) @ R" using S(1) by simp
    show "\<forall>x \<in> set (trace (new_ParamedicRunner c) @ S). \<not> is_command (snd x)"
      using S(2) by (auto simp: new_ParamedicRunner_def setup_action_def)
    show "\<forall>y \<in> set R. is_command (snd y) \<longrightarrow> snd y = ExecPromise (build_or_run_command c)"
      using S(3) by (auto simp: chain_action_def)
    show "(\<exists>y \<in> set R. is_command (snd y)) \<longrightarrow>
           set (subscriptions_and_file w c) \<subseteq> snd ` set (trace (new_ParamedicRunner c) @ S)"
      using S(4) by auto
  qed
next
  case (settles r st1 rc)
  from settles(2) obtain S R where
    S: "trace st1 = trace (new_ParamedicRunner c) @ S @ R"
      "\<forall>x \<in> set S. setup_action (snd x)" "\<forall>x \<in> set R. chain_action c (snd x)"
      "R \<noteq> [] \<longrightarrow> set (subscriptions_and_file w c) \<subseteq> snd ` set S"
    by (rule run_chain_structure)
  from cleanUpProject_once [OF settles(3)] obtain rest where
    rest: "trace st = trace st1 @ (now st1, EnterCleanUpProject) # rest"
      "\<forall>x \<in> set rest. fst x = now st1 \<and> setup_action (snd x)"
    by blast
  let ?C = "(now st1, EnterCleanUpProject) # rest"
  have C: "\<forall>x \<in> set ?C. \<not> is_command (snd x)"
    using rest(2) by (auto simp: setup_action_def)
  show ?thesis
  proof (rule that [of "trace (new_ParamedicRunner c) @ S" "R @ ?C"])
    show "trace st = (trace (new_ParamedicRunner c) @ S) @ R @ ?C"
      using S(1) rest(1) by simp
    show "\<forall>x \<in> set (trace (new_ParamedicRunner c) @ S). \<not> is_command (snd x)"
      using S(2) by (auto simp: new_ParamedicRunner_def setup_action_def)
    show "\<forall>y \<in> set (R @ ?C). is_command (snd y) \<longrightarrow> snd y = ExecPromise (build_or_run_command c)"
      using S(3) C by (auto simp: chain_action_def)
    show "(\<exists>y \<in> set (R @ ?C). is_command (snd y)) \<longrightarrow>
           set (subscriptions_and_file w c) \<subseteq> snd ` set (trace (new_ParamedicRunner c) @ S)"
      using S(4) C by auto
  qed
qed

lemma command_after_subscriptions:
  assumes "run w c (new_ParamedicRunner c) = (res, st)"
    and "trace st = pre @ (t, ExecPromise cmd) # post"
  shows "cmd = build_or_run_command c \<and> set (subscriptions_and_file w c) \<subseteq> snd ` set pre"
proof -
  from assms(1) obtain X Y where
    XY: "trace st = X @ Y"
      "\<forall>x \<in> set X. \<not> is_command (snd x)"
      "\<forall>y \<in> set Y. is_command (snd y) \<longrightarrow> snd y = ExecPromise (build_or_run_command c)"
      "(\<exists>y \<in> set Y. is_command (snd y)) \<longrightarrow>
           set (subscriptions_and_file w c) \<subseteq> snd ` set X"
    by (rule run_trace_structure)
  have notX: "(t, ExecPromise cmd) \<notin> set X"
    using XY(2) by force
  from XY(1) assms(2) have "X @ Y = pre @ (t, ExecPromise cmd) # post" by simp
  from append_split_at [OF this notX] obtain zs where
    zs: "pre = X @ zs" "Y = zs @ (t, ExecPromise cmd) # post"
    by blast
  then have inY: "(t, ExecPromise cmd) \<in> set Y" by simp
  with XY(3) have "cmd = build_or_run_command c" by force
  moreover from inY XY(4) have "set (subscriptions_and_file w c) \<subseteq> snd ` set X"
    by force
  with zs(1) have "set (subscriptions_and_file w c) \<subseteq> snd ` set pre" by auto
  ultimately show ?thesis by simp
qed

lemma ext_quiet:
  "throws w a = None \<Longrightarrow> ext w a st = (Ok (), st\<lparr>trace := trace st @ [(now st, a)]\<rparr>)"
  by (simp add: ext_def thn_def record_call_def ret_def)

lemma seq_ext_quiet:
  assumes "\<And>x. x \<in> set xs \<Longrightarrow> throws w (g x) = None"
  shows "seq (map (\<lambda>x. ext w (g x)) xs) st
           = (Ok (), st\<lparr>trace := trace st @ map (\<lambda>x. (now st, g x)) xs\<rparr>)"
  using assms
proof (induction xs arbitrary: st)
  case Nil
  show ?case by (simp add: ret_def)
next
  case (Cons x xs)
  from Cons.prems have x: "throws w (g x) = None" by simp
  have "seq (map (\<lambda>x. ext w (g x)) xs) (st\<lparr>trace := trace st @ [(now st, g x)]\<rparr>)
          = (Ok (), st\<lparr>trace := trace st @ [(now st, g x)]\<rparr>
                     \<lparr>trace := trace (st\<lparr>trace := trace st @ [(now st, g x)]\<rparr>)
                         @ map (\<lambda>y. (now (st\<lparr>trace := trace st @ [(now st, g x)]\<rparr>), g y)) xs\<rparr>)"
    by (rule Cons.IH) (simp add: Cons.prems)
  then show ?case
    by (simp add: thn_def ext_quiet [OF x])
qed

lemma injectReporters_quiet:
  assumes "\<And>a. setup_action a \<Longrightarrow> throws w a = None"
  shows "\<exists>st'. injectReporters w st = (Ok (), st') \<and> now st' = now st
               \<and> tempFolder st' = tempFolder st"
proof -
  have eq: "(\<lambda>(route, l). ext w (ServerOn route l))
              = (\<lambda>x. ext w ((\<lambda>(route, l). ServerOn route l) x))"
    by (auto simp: fun_eq_iff)
  have all: "throws w ((\<lambda>(route, l). ServerOn route l) x) = None" for x
    by (cases x) (simp add: assms setup_action_def)
  have get: "throws w GetReporters = None"
    by (simp add: assms setup_action_def)
  show ?thesis
    unfolding injectReporters_def eq
    by (simp add: thn_def ext_quiet [OF get] seq_ext_quiet [OF all])
qed

lemma before_runTests_quiet:
  assumes quiet: "\<And>a. setup_action a \<Longrightarrow> throws w a = None"
    and "exit_code w (''cordova requirements '' @ getPlatformId c) = 0"
    and "startServer_completes w = After d None"
  shows "\<exists>sb. before_runTests w c st = (Ok (), sb) \<and> now sb = now st + d"
proof -
  have t: "throws w a = None" if "setup_action a" for a
    using that by (rule quiet)
  have first: "\<exists>s1. thn (createTempProject w) (\<lambda>_.
                     thn (prepareProjectToRunTests w c) (\<lambda>_.
                     thn (ext w StartServer) (\<lambda>_. wait (startServer_completes w)))) st
                   = (Ok (), s1) \<and> now s1 = now st + d"
    using assms(2,3)
    by (simp add: createTempProject_def prepareProjectToRunTests_def installPlugins_def
        setUpStartPage_def installPlatform_def checkPlatformRequirements_def
        thn_def ext_def record_call_def ret_def throw_def logger_def wait_def
        tempFolder_name_def t setup_action_def)
  then obtain s1 where s1: "thn (createTempProject w) (\<lambda>_.
                     thn (prepareProjectToRunTests w c) (\<lambda>_.
                     thn (ext w StartServer) (\<lambda>_. wait (startServer_completes w)))) st
                   = (Ok (), s1)" "now s1 = now st + d"
    by blast
  from injectReporters_quiet [OF quiet] obtain s2 where
    s2: "injectReporters w s1 = (Ok (), s2)" "now s2 = now s1"
    by blast
  have rest: "\<exists>sb. thn (subcribeForEvents w) (\<lambda>_.
                 thn (ext w (GetConnectionUrl (getPlatformId c))) (\<lambda>_.
                 writeMedicConnectionUrl w (connection_url w (getPlatformId c)))) s2
               = (Ok (), sb) \<and> now sb = now s2"
    by (simp add: subcribeForEvents_def writeMedicConnectionUrl_def
        thn_def ext_def record_call_def ret_def logger_def t setup_action_def)
  then obtain sb where sb: "thn (subcribeForEvents w) (\<lambda>_.
                 thn (ext w (GetConnectionUrl (getPlatformId c))) (\<lambda>_.
                 writeMedicConnectionUrl w (connection_url w (getPlatformId c)))) s2
               = (Ok (), sb)" "now sb = now s2"
    by blast
  have "before_runTests w c =
          thn (thn (createTempProject w) (\<lambda>_.
                     thn (prepareProjectToRunTests w c) (\<lambda>_.
                     thn (ext w StartServer) (\<lambda>_. wait (startServer_completes w)))))
            (\<lambda>_. thn (injectReporters w) (\<lambda>_.
                 thn (subcribeForEvents w) (\<lambda>_.
                 thn (ext w (GetConnectionUrl (getPlatformId c))) (\<lambda>_.
                 writeMedicConnectionUrl w (connection_url w (getPlatformId c))))))"
    by (simp add: before_runTests_def thn_assoc)
  then have "before_runTests w c st = (Ok (), sb)"
    using s1(1) s2(1) sb(1) by (simp add: thn_def)
  with s1(2) s2(2) sb(2) show ?thesis by simp
qed

lemma thn_ext_recorded:
  assumes "thn (ext w a) K st = (r, s')" and "adds P (K ())"
  shows "(now st, a) \<in> set (trace s')"
proof -
  obtain r1 st1 where e: "ext w a st = (r1, st1)" by (cases "ext w a st")
  then have tr: "trace st1 = trace st @ [(now st, a)]" and "r1 \<noteq> Hang"
    by (auto simp: ext_def thn_def record_call_def ret_def throw_def split: option.splits)
  show ?thesis
  proof (cases r1)
    case (Ok u)
    with assms(1) e have "K () st1 = (r, s')" by (simp add: thn_def)
    with assms(2) obtain new where "trace s' = trace st1 @ new"
      unfolding adds_def by blast
    with tr show ?thesis by simp
  next
    case (Fail x)
    with assms(1) e have "s' = st1" by (simp add: thn_def)
    with tr show ?thesis by simp
  next
    case Hang
    with \<open>r1 \<noteq> Hang\<close> show ?thesis by simp
  qed
qed

lemma thn_logger:
  "thn (logger l m) f st = f () (st\<lparr>trace := trace st @ [(now st, Logger l m)]\<rparr>)"
  by (simp add: thn_def logger_def record_call_def)

lemma runTests_issues_command:
  assumes "runTests w c sb = (r, s')"
  shows "(now sb, ExecPromise (build_or_run_command c)) \<in> set (trace s')"
proof -
  let ?sl = "\<lambda>cmd. sb\<lparr>trace := trace sb @
               [(now sb, Logger ''normal'' (''cordova-paramedic: running command '' @ cmd))]\<rparr>"
  show ?thesis
  proof (cases "shouldUseSauce c")
    case True
    let ?K = "\<lambda>_::unit. thn (wait (execPromise_completes w (getCommandForBuilding c)))
                (\<lambda>_. runSauceTests w c)"
    have K: "adds wait_action (?K ())"
      by (intro adds_thn adds_wait adds_runSauceTests)
    from assms True
    have "thn (ext w (ExecPromise (getCommandForBuilding c))) ?K (?sl (getCommandForBuilding c))
            = (r, s')"
      unfolding runTests_def Let_def thn_logger by (simp only: if_True)
    from thn_ext_recorded [OF this K] True show ?thesis
      by (simp add: build_or_run_command_def)
  next
    case False
    let ?cmd = "getCommandForStartingTests c"
    let ?K = "\<lambda>_::unit. then2 (wait (execPromise_completes w ?cmd))
           (\<lambda>_. if shouldWaitForTestResult c then
                   thn waitForConnection_call (\<lambda>expiry.
                   thn (read_identifier ''reject'') (\<lambda>_.
                   thn (read_identifier ''resolve'') (\<lambda>_.
                   thn (then2 (waitForConnection_expiry w expiry) ret (\<lambda>_. ret Undefined)) (\<lambda>_.
                   thn (waitForTests w) (\<lambda>_. ret Undefined)))))
                 else ret Undefined)
           (\<lambda>code.
              thn (if \<not> verbose c then logger ''normal'' ''undefined'' else ret ()) (\<lambda>_.
              thn (logger ''normal''
                     ''cordova-paramedic: unable to run tests; command log is available above'') (\<lambda>_.
              throw (Error (?cmd @ '' returned error code '' @ reason_string code)))))"
    have K: "adds (\<lambda>_. True) (?K ())"
      by (auto intro!: adds_thn adds_then2 adds_logger adds_wait adds_ret adds_throw
          adds_read_identifier adds_mono [OF adds_waitForTests]
          adds_mono [OF adds_waitForConnection_call]
          adds_mono [OF adds_waitForConnection_expiry])
    from assms False
    have "thn (ext w (ExecPromise ?cmd)) ?K (?sl ?cmd) = (r, s')"
      unfolding runTests_def Let_def thn_logger by (simp only: if_False)
    from thn_ext_recorded [OF this K] False show ?thesis
      by (simp add: build_or_run_command_def)
  qed
qed

lemma command_is_issued:
  assumes "run w c (new_ParamedicRunner c) = (res, st)"
    and "\<And>e. res \<noteq> Throws e"
    and "\<And>a. setup_action a \<Longrightarrow> throws w a = None"
    and "exit_code w (''cordova requirements '' @ getPlatformId c) = 0"
    and "startServer_completes w = After d None"
  shows "(d, ExecPromise (build_or_run_command c)) \<in> set (trace st)"
proof -
  from before_runTests_quiet [OF assms(3,4,5), of "new_ParamedicRunner c"] obtain sb where
    sb: "before_runTests w c (new_ParamedicRunner c) = (Ok (), sb)"
      "now sb = now (new_ParamedicRunner c) + d"
    by blast
  then have d: "now sb = d"
    by (simp add: new_ParamedicRunner_def)
  have chain: "(d, ExecPromise (build_or_run_command c)) \<in> set (trace s1)"
    if "run_chain w c (new_ParamedicRunner c) = (r, s1)" for r s1
  proof -
    from that sb(1) have "runTests w c sb = (r, s1)"
      by (simp add: run_chain_factored thn_def)
    from runTests_issues_command [OF this] d show ?thesis by simp
  qed
  from assms(1) show ?thesis
  proof (cases rule: run_shape)
    case (throws e)
    from throws(1) assms(2) [of e] show ?thesis by blast
  next
    case hangs
    from chain [OF hangs(2)] show ?thesis .
  next
    case (settles r st1 rc)
    from cleanUpProject_once [OF settles(3)] obtain rest where
      "trace st = trace st1 @ (now st1, EnterCleanUpProject) # rest"
      by blast
    with chain [OF settles(2)] show ?thesis by simp
  qed
qed

subsection \<open>The timers of a run\<close>

lemma run_timers:
  assumes "run w c (new_ParamedicRunner c) = (res, st)"
  shows "\<forall>x \<in> set (trace st). is_timer (snd x) \<longrightarrow> snd x = SetTimeout INITIAL_CONNECTION_TIMEOUT"
  using assms
proof (cases rule: run_shape)
  case (throws e)
  then show ?thesis by (simp add: new_ParamedicRunner_def)
next
  case hangs
  from adds_run_chain [of c w] hangs(2) obtain new where
    "trace st = trace (new_ParamedicRunner c) @ new" "\<forall>x \<in> set new. chain_action c (snd x)"
    unfolding adds_def by blast
  then show ?thesis
    by (auto simp: new_ParamedicRunner_def chain_action_def)
next
  case (settles r st1 rc)
  from adds_run_chain [of c w] settles(2) obtain new where
    new: "trace st1 = trace (new_ParamedicRunner c) @ new"
      "\<forall>x \<in> set new. chain_action c (snd x)"
    unfolding adds_def by blast
  from cleanUpProject_once [OF settles(3)] obtain rest where
    "trace st = trace st1 @ (now st1, EnterCleanUpProject) # rest"
      "\<forall>x \<in> set rest. fst x = now st1 \<and> setup_action (snd x)"
    by blast
  with new show ?thesis
    by (auto simp: new_ParamedicRunner_def chain_action_def setup_action_def)
qed

lemma exports_run_calls:
  assumes "run w c (new_ParamedicRunner c) = (res, st)"
  shows "set (before_delivery (exports_run w c)) \<union> set (after_delivery (exports_run w c))
           \<subseteq> set (trace st) \<union> set (pending_checks st)"
  using assms
  by (auto simp: exports_run_def timed_out_def split: returned.splits result.splits if_splits)

section \<open>The claims\<close>

text \<open>
  C1. The listeners of \<^verbatim>\<open>waitForTests\<close> are registered when it is called and see the
  events the server emits from then on. When the first of these that settles the
  promise is the terminal event jasmineDone with failed-spec count \<open>n\<close>, waitForTests
  resolves, at the time of that event, with passed = true exactly when \<open>n = 0\<close>, and
  with passed = false for every \<open>n > 0\<close>; it registers each listener once and logs the
  completion.
\<close>

theorem waitForTests_jasmineDone:
  assumes "throws w (ServerOn ''jasmineDone'' JasmineDoneListener) = None"
    and "throws w (ServerOn ''disconnect'' DisconnectListener) = None"
    and "filter (\<lambda>(t, e). now st \<le> t) (server_events w) = pre @ (t, JasmineDone n) # post"
    and "\<forall>x \<in> set pre. \<not> settles (snd x)"
  shows "waitForTests w st =
           (Ok (Boolean (n = 0)),
            st\<lparr>now := t,
               trace := trace st @
                 [(now st, Logger ''info'' ''cordova-paramedic: waiting for test results''),
                  (now st, ServerOn ''jasmineDone'' JasmineDoneListener),
                  (now st, ServerOn ''disconnect'' DisconnectListener),
                  (t, Logger ''info'' ''cordova-paramedic: tests have been completed'')]\<rparr>)
         \<and> (0 < n \<longrightarrow> fst (waitForTests w st) = Ok (Boolean False))"
proof -
  have "deliver_events (filter (\<lambda>(t, e). now st \<le> t) (server_events w)) (Pending, now st)
          = (Fulfilled (Boolean (n = 0)), t)"
    unfolding assms(3) using assms(4) by (rule deliver_events_first_jasmineDone)
  then show ?thesis
    using assms(1,2)
    by (simp add: waitForTests_def thn_def logger_def record_call_def ext_def ret_def)
qed

theorem waitForTests_jasmineDone_witness:
  "waitForTests passing_suite idle_runner =
     (Ok (Boolean True),
      idle_runner\<lparr>now := 30,
        trace := trace idle_runner @
          [(now idle_runner, Logger ''info'' ''cordova-paramedic: waiting for test results''),
           (now idle_runner, ServerOn ''jasmineDone'' JasmineDoneListener),
           (now idle_runner, ServerOn ''disconnect'' DisconnectListener),
           (30, Logger ''info'' ''cordova-paramedic: tests have been completed'')]\<rparr>)
   \<and> fst (waitForTests failing_suite idle_runner) = Ok (Boolean False)"
proof -
  have a1: "throws passing_suite (ServerOn ''jasmineDone'' JasmineDoneListener) = None"
    and a2: "throws passing_suite (ServerOn ''disconnect'' DisconnectListener) = None"
    and a3: "filter (\<lambda>(t, e). now idle_runner \<le> t) (server_events passing_suite)
               = [(20, SpecDone)] @ (30, JasmineDone 0) # [(40, Disconnect)]"
    and a4: "\<forall>x \<in> set [(20::nat, SpecDone)]. \<not> settles (snd x)"
    by (simp_all add: example_defs settles_def)
  have b1: "throws failing_suite (ServerOn ''jasmineDone'' JasmineDoneListener) = None"
    and b2: "throws failing_suite (ServerOn ''disconnect'' DisconnectListener) = None"
    and b3: "filter (\<lambda>(t, e). now idle_runner \<le> t) (server_events failing_suite)
               = [(20, SpecDone)] @ (30, JasmineDone 3) # [(40, JasmineDone 0)]"
    by (simp_all add: example_defs)
  from waitForTests_jasmineDone [OF a1 a2 a3 a4] waitForTests_jasmineDone [OF b1 b2 b3 a4]
  show ?thesis by simp
qed

text \<open>
  C2. When the first settling event after registration is a disconnect, no jasmineDone
  having come before it, \<^verbatim>\<open>waitForTests\<close> rejects, at the time of that event, with the
  error "device is disconnected before passing the tests": the outcome is neither a
  pass nor a pending promise. The calls it has made are the log line and one
  registration of each listener: nothing is registered again, no timer is armed, the
  command is not issued again.
\<close>

theorem waitForTests_disconnect:
  assumes "throws w (ServerOn ''jasmineDone'' JasmineDoneListener) = None"
    and "throws w (ServerOn ''disconnect'' DisconnectListener) = None"
    and "filter (\<lambda>(t, e). now st \<le> t) (server_events w) = pre @ (t, Disconnect) # post"
    and "\<forall>x \<in> set pre. \<not> settles (snd x)"
  shows "waitForTests w st =
           (Fail (Error ''device is disconnected before passing the tests''),
            st\<lparr>now := t,
               trace := trace st @
                 [(now st, Logger ''info'' ''cordova-paramedic: waiting for test results''),
                  (now st, ServerOn ''jasmineDone'' JasmineDoneListener),
                  (now st, ServerOn ''disconnect'' DisconnectListener)]\<rparr>)"
proof -
  have "deliver_events (filter (\<lambda>(t, e). now st \<le> t) (server_events w)) (Pending, now st)
          = (Rejected (Error ''device is disconnected before passing the tests''), t)"
    unfolding assms(3) using assms(4) by (rule deliver_events_first_disconnect)
  then show ?thesis
    using assms(1,2)
    by (simp add: waitForTests_def thn_def logger_def record_call_def ext_def ret_def)
qed

theorem waitForTests_disconnect_witness:
  "waitForTests dropped_device idle_runner =
     (Fail (Error ''device is disconnected before passing the tests''),
      idle_runner\<lparr>now := 30,
        trace := trace idle_runner @
          [(now idle_runner, Logger ''info'' ''cordova-paramedic: waiting for test results''),
           (now idle_runner, ServerOn ''jasmineDone'' JasmineDoneListener),
           (now idle_runner, ServerOn ''disconnect'' DisconnectListener)]\<rparr>)"
proof -
  have a1: "throws dropped_device (ServerOn ''jasmineDone'' JasmineDoneListener) = None"
    and a2: "throws dropped_device (ServerOn ''disconnect'' DisconnectListener) = None"
    and a3: "filter (\<lambda>(t, e). now idle_runner \<le> t) (server_events dropped_device)
               = [(20, DeviceInfo)] @ (30, Disconnect) # [(40, JasmineDone 0)]"
    and a4: "\<forall>x \<in> set [(20::nat, DeviceInfo)]. \<not> settles (snd x)"
    by (simp_all add: example_defs settles_def)
  show ?thesis
    by (rule waitForTests_disconnect [OF a1 a2 a3 a4])
qed

text \<open>
  C3. When Sauce mode is requested and the platform is neither android nor ios, or one
  of the environment variables SAUCE_USER and SAUCE_ACCESS_KEY is unset, or the action
  is neither run nor emulate, \<^verbatim>\<open>run\<close> throws one of the four configuration errors
  and leaves the runner as it found it; the caller of \<^verbatim>\<open>exports.run\<close> gets that
  error after the constructor's \<^verbatim>\<open>setVerboseLevel\<close> and no other call.
\<close>

theorem checkSauceRequirements_fails_fast:
  assumes "shouldUseSauce c"
    and "(getPlatformId c \<noteq> ''android'' \<and> getPlatformId c \<noteq> ''ios'')
         \<or> env w ''SAUCE_USER'' = None
         \<or> env w ''SAUCE_ACCESS_KEY'' = None
         \<or> (getAction c \<noteq> ''run'' \<and> getAction c \<noteq> ''emulate'')"
  shows "\<exists>msg \<in> {''Sauce Labs only supports Android and iOS'',
                  ''SAUCE_ACCESS_KEY environment variable not set'',
                  ''SAUCE_USER environment variable not set'',
                  ''justBuild cannot be used with shouldUseSauce''}.
           run w c st = (Throws (Error msg), st)
           \<and> exports_run w c =
               \<lparr>outcome = Thrown (Error msg), delivered_at = 0,
                before_delivery = [(0, SetVerboseLevel (isVerbose c))],
                after_delivery = []\<rparr>"
proof -
  let ?thrown = "\<lambda>msg. \<forall>s. checkSauceRequirements w c s = (Fail (Error msg), s)"
  let ?platform = "getPlatformId c \<noteq> ''android'' \<and> getPlatformId c \<noteq> ''ios''"
  have "?thrown ''Sauce Labs only supports Android and iOS''
        \<or> ?thrown ''SAUCE_ACCESS_KEY environment variable not set''
        \<or> ?thrown ''SAUCE_USER environment variable not set''
        \<or> ?thrown ''justBuild cannot be used with shouldUseSauce''"
  proof (cases ?platform)
    case True
    with assms(1) have "?thrown ''Sauce Labs only supports Android and iOS''"
      by (simp add: checkSauceRequirements_def throw_def)
    then show ?thesis by blast
  next
    case platform: False
    show ?thesis
    proof (cases "falsy (env w SAUCE_KEY_ENV_VAR)")
      case True
      with assms(1) platform have "?thrown ''SAUCE_ACCESS_KEY environment variable not set''"
        by (simp add: checkSauceRequirements_def throw_def SAUCE_KEY_ENV_VAR_def)
      then show ?thesis by blast
    next
      case key: False
      show ?thesis
      proof (cases "falsy (env w SAUCE_USER_ENV_VAR)")
        case True
        with assms(1) platform key have "?thrown ''SAUCE_USER environment variable not set''"
          by (simp add: checkSauceRequirements_def throw_def SAUCE_USER_ENV_VAR_def)
        then show ?thesis by blast
      next
        case user: False
        from key user assms(2) platform
        have "getAction c \<noteq> ''run'' \<and> getAction c \<noteq> ''emulate''"
          by (auto simp: falsy_def SAUCE_USER_ENV_VAR_def SAUCE_KEY_ENV_VAR_def)
        then have "\<not> shouldWaitForTestResult c"
          by (simp add: shouldWaitForTestResult_def Let_def)
        with assms(1) platform key user
        have "?thrown ''justBuild cannot be used with shouldUseSauce''"
          by (simp add: checkSauceRequirements_def throw_def)
        then show ?thesis by blast
      qed
    qed
  qed
  then obtain msg where m: "msg \<in> {''Sauce Labs only supports Android and iOS'',
                  ''SAUCE_ACCESS_KEY environment variable not set'',
                  ''SAUCE_USER environment variable not set'',
                  ''justBuild cannot be used with shouldUseSauce''}"
    and f: "\<And>s. checkSauceRequirements w c s = (Fail (Error msg), s)"
    by blast
  have r: "run w c s = (Throws (Error msg), s)" for s
    by (simp add: run_def f)
  have "exports_run w c =
               \<lparr>outcome = Thrown (Error msg), delivered_at = 0,
                before_delivery = [(0, SetVerboseLevel (isVerbose c))],
                after_delivery = []\<rparr>"
    by (simp add: exports_run_def r new_ParamedicRunner_def)
  with r [of st] have both: "run w c st = (Throws (Error msg), st)
           \<and> exports_run w c =
               \<lparr>outcome = Thrown (Error msg), delivered_at = 0,
                before_delivery = [(0, SetVerboseLevel (isVerbose c))],
                after_delivery = []\<rparr>"
    by (rule conjI)
  show ?thesis
  proof (rule bexI [where x = msg])
    show "run w c st = (Throws (Error msg), st)
           \<and> exports_run w c =
               \<lparr>outcome = Thrown (Error msg), delivered_at = 0,
                before_delivery = [(0, SetVerboseLevel (isVerbose c))],
                after_delivery = []\<rparr>"
      by (rule both)
  qed (rule m)
qed

theorem checkSauceRequirements_fails_fast_witness:
  "shouldUseSauce (sauce_run\<lparr>getAction := ''build''\<rparr>)
   \<and> (\<exists>msg \<in> {''Sauce Labs only supports Android and iOS'',
                  ''SAUCE_ACCESS_KEY environment variable not set'',
                  ''SAUCE_USER environment variable not set'',
                  ''justBuild cannot be used with shouldUseSauce''}.
           run quiet_world (sauce_run\<lparr>getAction := ''build''\<rparr>)
               (new_ParamedicRunner (sauce_run\<lparr>getAction := ''build''\<rparr>))
             = (Throws (Error msg), new_ParamedicRunner (sauce_run\<lparr>getAction := ''build''\<rparr>))
           \<and> exports_run quiet_world (sauce_run\<lparr>getAction := ''build''\<rparr>) =
               \<lparr>outcome = Thrown (Error msg), delivered_at = 0,
                before_delivery =
                  [(0, SetVerboseLevel (isVerbose (sauce_run\<lparr>getAction := ''build''\<rparr>)))],
                after_delivery = []\<rparr>)"
proof -
  have sauce: "shouldUseSauce (sauce_run\<lparr>getAction := ''build''\<rparr>)"
    by (simp add: example_defs)
  have build: "(getPlatformId (sauce_run\<lparr>getAction := ''build''\<rparr>) \<noteq> ''android''
          \<and> getPlatformId (sauce_run\<lparr>getAction := ''build''\<rparr>) \<noteq> ''ios'')
         \<or> env quiet_world ''SAUCE_USER'' = None
         \<or> env quiet_world ''SAUCE_ACCESS_KEY'' = None
         \<or> (getAction (sauce_run\<lparr>getAction := ''build''\<rparr>) \<noteq> ''run''
            \<and> getAction (sauce_run\<lparr>getAction := ''build''\<rparr>) \<noteq> ''emulate'')"
    by (simp add: example_defs)
  show ?thesis
    by (rule conjI [OF sauce checkSauceRequirements_fails_fast [OF sauce build]])
qed

text \<open>
  C7. \<^verbatim>\<open>waitForConnection\<close> arms exactly one timer, of 300000 ms, when it is called.
  Its only call of \<^verbatim>\<open>isDeviceConnected\<close> is stamped with the expiry of that timer;
  it resolves when the predicate holds then, whenever the device attached, and rejects
  with the error that names the 300 seconds otherwise.
\<close>

theorem waitForConnection_single_check:
  "waitForConnection_call st =
     (Ok (now st + 300000),
      st\<lparr>trace := trace st @ [(now st, SetTimeout 300000)],
         timers := timers st @ [now st + 300000]\<rparr>)
   \<and> (\<exists>st'. waitForConnection w st =
          (if isDeviceConnected w (now st + 300000) then Ok Undefined
           else Fail (Error ''Seems like device not connected to local server in 300 secs''), st')
        \<and> trace st' = trace st @ [(now st, SetTimeout 300000),
                                   (now st + 300000, IsDeviceConnected)]
        \<and> now st' = now st + 300000
        \<and> length (timers st') = length (timers st))"
  by (simp add: waitForConnection_def waitForConnection_call_def waitForConnection_expiry_def
      thn_def Let_def ERR_MSG_text INITIAL_CONNECTION_TIMEOUT_def length_remove1)

theorem waitForConnection_single_check_witness:
  "\<exists>st'. waitForConnection quiet_world (new_ParamedicRunner local_run) = (Ok Undefined, st')
         \<and> trace st' = [(0, SetVerboseLevel False), (0, SetTimeout 300000),
                         (300000, IsDeviceConnected)]
         \<and> now st' = 300000 \<and> timers st' = []"
  using waitForConnection_single_check [of "new_ParamedicRunner local_run" quiet_world]
  by (simp add: example_defs new_ParamedicRunner_def)

text \<open>
  C4, as amended. For every run that passes the Sauce requirements check and whose promise
  chain settles, by success or by failure, before the overall timeout fires,
  \<^verbatim>\<open>cleanUpProject\<close> is invoked exactly once, before the result is delivered to the
  caller of \<^verbatim>\<open>exports.run\<close>, and not again afterwards. A run that fails the
  requirements check throws without any invocation of \<^verbatim>\<open>cleanUpProject\<close>. When the
  timeout fires first, the caller receives the timeout error before any invocation of
  \<^verbatim>\<open>cleanUpProject\<close>; the one invocation follows later if the chain settles, and
  never if it stays pending.
\<close>

theorem teardown_once_when_chain_settles:
  assumes "run w c (new_ParamedicRunner c) = (res, st)"
  shows "(\<forall>e. res = Throws e \<longrightarrow>
            outcome (exports_run w c) = Thrown e
            \<and> teardowns (before_delivery (exports_run w c)) = 0
            \<and> teardowns (after_delivery (exports_run w c)) = 0)
       \<and> (\<forall>v. res = Promise (Ok v) \<and> now st < node_timer_delay (getTimeout c) \<longrightarrow>
            outcome (exports_run w c) = ResolvedWith v
            \<and> teardowns (before_delivery (exports_run w c)) = 1
            \<and> teardowns (after_delivery (exports_run w c)) = 0)
       \<and> (\<forall>e. res = Promise (Fail e) \<and> now st < node_timer_delay (getTimeout c) \<longrightarrow>
            outcome (exports_run w c) = RejectedWith e
            \<and> teardowns (before_delivery (exports_run w c)) = 1
            \<and> teardowns (after_delivery (exports_run w c)) = 0)
       \<and> (\<forall>r. res = Promise r \<and> (r = Hang \<or> \<not> now st < node_timer_delay (getTimeout c)) \<longrightarrow>
            outcome (exports_run w c) = RejectedWith (Error timeout_message)
            \<and> teardowns (before_delivery (exports_run w c)) = 0
            \<and> teardowns (after_delivery (exports_run w c)) = (if r = Hang then 0 else 1))"
proof -
  let ?T = "node_timer_delay (getTimeout c)"
  let ?early = "\<lambda>(t, a). t < ?T"
  let ?late = "\<lambda>(t, a). \<not> t < ?T"
  note facts = run_teardowns [OF assms]
  have pend: "teardowns (pending_checks st) = 0"
    using teardowns_pending_checks [of "\<lambda>_. True" st] by simp
  have late_eq: "?late = (\<lambda>x. \<not> ?early x)"
    by (auto simp: fun_eq_iff)
  have part: "teardowns (filter ?early (trace st)) + teardowns (filter ?late (trace st))
                = teardowns (trace st)"
    unfolding late_eq by (rule teardowns_partition)
  have timed: "teardowns (before_delivery (timed_out c st)) = teardowns (filter ?early (trace st))"
    "teardowns (after_delivery (timed_out c st)) = teardowns (filter ?late (trace st))"
    by (simp_all add: timed_out_def teardowns_append teardowns_pending_checks)
  show ?thesis
  proof (cases res)
    case (Throws e)
    with assms facts show ?thesis
      by (simp add: exports_run_def teardowns_def)
  next
    case (Promise r)
    show ?thesis
    proof (cases r)
      case Hang
      with Promise facts have "\<forall>x \<in> set (trace st). snd x \<noteq> EnterCleanUpProject"
        by simp
      then have "teardowns (filter p (trace st)) = 0" for p
        by (rule teardowns_filter_none)
      with Promise Hang assms timed show ?thesis
        by (simp add: exports_run_def timed_out_def)
    next
      case (Ok v)
      with Promise facts have once: "teardowns (trace st) = 1"
        and stamp: "\<forall>x \<in> set (trace st). snd x = EnterCleanUpProject \<longrightarrow> fst x = now st"
        by simp_all
      show ?thesis
      proof (cases "now st < ?T")
        case True
        with Promise Ok assms once pend show ?thesis
          by (simp add: exports_run_def)
      next
        case False
        have "filter (\<lambda>x. snd x = EnterCleanUpProject) (filter ?early (trace st)) = []"
          using stamp False by (auto simp: filter_empty_conv)
        then have early0: "teardowns (filter ?early (trace st)) = 0"
          by (simp add: teardowns_def)
        with part once have "teardowns (filter ?late (trace st)) = 1" by simp
        with early0 False Promise Ok assms timed show ?thesis
          by (simp add: exports_run_def timed_out_def)
      qed
    next
      case (Fail e)
      with Promise facts have once: "teardowns (trace st) = 1"
        and stamp: "\<forall>x \<in> set (trace st). snd x = EnterCleanUpProject \<longrightarrow> fst x = now st"
        by simp_all
      show ?thesis
      proof (cases "now st < ?T")
        case True
        with Promise Fail assms once pend show ?thesis
          by (simp add: exports_run_def)
      next
        case False
        have "filter (\<lambda>x. snd x = EnterCleanUpProject) (filter ?early (trace st)) = []"
          using stamp False by (auto simp: filter_empty_conv)
        then have early0: "teardowns (filter ?early (trace st)) = 0"
          by (simp add: teardowns_def)
        with part once have "teardowns (filter ?late (trace st)) = 1" by simp
        with early0 False Promise Fail assms timed show ?thesis
          by (simp add: exports_run_def timed_out_def)
      qed
    qed
  qed
qed

theorem teardown_once_when_chain_settles_witness:
  "outcome (exports_run quiet_world build_only) = ResolvedWith Undefined
   \<and> teardowns (before_delivery (exports_run quiet_world build_only)) = 1
   \<and> teardowns (after_delivery (exports_run quiet_world build_only)) = 0
   \<and> outcome (exports_run disk_full local_run) = RejectedWith (TypeError null_name_message)
   \<and> teardowns (before_delivery (exports_run disk_full local_run)) = 1
   \<and> teardowns (after_delivery (exports_run disk_full local_run)) = 0"
proof -
  let ?st = "snd (run quiet_world build_only (new_ParamedicRunner build_only))"
  have r: "run quiet_world build_only (new_ParamedicRunner build_only) = (Promise (Ok Undefined), ?st)"
    by (simp add: step_defs method_defs example_defs Let_def)
  have n: "now ?st < node_timer_delay (getTimeout build_only)"
    by (simp add: step_defs method_defs example_defs Let_def)
  let ?sf = "snd (run disk_full local_run (new_ParamedicRunner local_run))"
  have rf: "run disk_full local_run (new_ParamedicRunner local_run)
              = (Promise (Fail (TypeError null_name_message)), ?sf)"
    by (simp add: step_defs method_defs example_defs Let_def)
  have nf: "now ?sf < node_timer_delay (getTimeout local_run)"
    by (simp add: step_defs method_defs example_defs Let_def)
  from teardown_once_when_chain_settles [OF r] n
    teardown_once_when_chain_settles [OF rf] nf
  show ?thesis
    by blast
qed

text \<open>
  C4 as stated fails on two inputs. A build-only run whose command takes 60 s under an
  overall timeout of 30 s: the caller has the timeout error at 30 s, and
  \<^verbatim>\<open>cleanUpProject\<close> runs only afterwards. A remote build-only run: the requirements
  check throws and \<^verbatim>\<open>cleanUpProject\<close> never runs.
\<close>

theorem teardown_not_on_every_path:
  "outcome (exports_run quiet_world (build_only\<lparr>getTimeout := 30000\<rparr>))
     = RejectedWith (Error ''This test seems to be blocked :: timeout exceeded. Exiting ...'')
   \<and> delivered_at (exports_run quiet_world (build_only\<lparr>getTimeout := 30000\<rparr>)) = 30000
   \<and> teardowns (before_delivery (exports_run quiet_world (build_only\<lparr>getTimeout := 30000\<rparr>))) = 0
   \<and> teardowns (after_delivery (exports_run quiet_world (build_only\<lparr>getTimeout := 30000\<rparr>))) = 1
   \<and> outcome (exports_run quiet_world (sauce_run\<lparr>getAction := ''build''\<rparr>))
     = Thrown (Error ''justBuild cannot be used with shouldUseSauce'')
   \<and> teardowns (before_delivery (exports_run quiet_world (sauce_run\<lparr>getAction := ''build''\<rparr>))) = 0
   \<and> teardowns (after_delivery (exports_run quiet_world (sauce_run\<lparr>getAction := ''build''\<rparr>))) = 0"
  by (simp add: step_defs method_defs example_defs timeout_message_def Let_def)

text \<open>
  C6 on the code. A local run (action run) in a world where the command succeeds, the
  device is attached from 10 s on and jasmineDone with no failed spec arrives at 400 s:
  the callback of \<^verbatim>\<open>runTests\<close> arms the watchdog at 60.1 s and then reads the
  identifier \<^verbatim>\<open>reject\<close>, which is bound nowhere. \<^verbatim>\<open>run\<close> is rejected with that
  ReferenceError at 60.1 s; the listeners of \<^verbatim>\<open>waitForTests\<close> are never registered, and
  the watchdog's check at 360.1 s settles a promise nobody waits for.
\<close>

theorem local_run_rejects_with_ReferenceError:
  "exports_run quiet_world local_run =
     \<lparr>outcome = RejectedWith (ReferenceError ''reject is not defined''),
      delivered_at = 60100,
      before_delivery = trace (snd (run quiet_world local_run (new_ParamedicRunner local_run))),
      after_delivery = [(360100, IsDeviceConnected)]\<rparr>
   \<and> (60100, SetTimeout 300000)
       \<in> set (trace (snd (run quiet_world local_run (new_ParamedicRunner local_run))))
   \<and> ServerOn ''jasmineDone'' JasmineDoneListener
       \<notin> snd ` set (trace (snd (run quiet_world local_run (new_ParamedicRunner local_run))))
   \<and> ServerOn ''disconnect'' DisconnectListener
       \<notin> snd ` set (trace (snd (run quiet_world local_run (new_ParamedicRunner local_run))))"
  by (simp add: step_defs method_defs example_defs Let_def)

text \<open>
  C5, as amended. An error raised during \<^verbatim>\<open>cleanUpProject\<close> is neither caught nor
  logged: the promise that \<^verbatim>\<open>run\<close> returns is rejected with that error, which
  replaces the primary result or error of the run, and the only calls made after the
  entry into \<^verbatim>\<open>cleanUpProject\<close> are its own announcement, \<^verbatim>\<open>popd\<close> and
  \<^verbatim>\<open>rm\<close>. When \<^verbatim>\<open>cleanUpProject\<close> raises nothing, the primary result or error is
  delivered unchanged.
\<close>

theorem cleanUpProject_error_replaces_outcome:
  assumes "checkSauceRequirements w c st = (Ok (), st)"
    and "run_chain w c st = (r, st1)"
    and "r \<noteq> Hang"
  shows "(\<forall>e st2. cleanUpProject w c st1 = (Fail e, st2) \<longrightarrow>
            run w c st = (Promise (Fail e), st2)
            \<and> (\<forall>x \<in> set (drop (Suc (length (trace st1))) (trace st2)).
                  snd x = ShellPopd \<or> (\<exists>name. snd x = ShellRm [''-rf'', name])
                  \<or> (\<exists>name. snd x = Logger ''info''
                        (''cordova-paramedic: Deleting the application: '' @ name))))
       \<and> (\<forall>st2. cleanUpProject w c st1 = (Ok (), st2) \<longrightarrow>
            run w c st = (Promise r, st2))"
proof -
  have run: "run w c st =
      (case cleanUpProject w c st1 of
         (Ok u, st2) \<Rightarrow> (Promise r, st2)
       | (Fail e, st2) \<Rightarrow> (Promise (Fail e), st2)
       | (Hang, st2) \<Rightarrow> (Promise Hang, st2))"
    using assms by (cases r) (simp_all add: run_def fin_def split: prod.splits result.splits)
  have calls: "\<forall>x \<in> set (drop (Suc (length (trace st1))) (trace st2)).
                  snd x = ShellPopd \<or> (\<exists>name. snd x = ShellRm [''-rf'', name])
                  \<or> (\<exists>name. snd x = Logger ''info''
                        (''cordova-paramedic: Deleting the application: '' @ name))"
    if "cleanUpProject w c st1 = (rc, st2)" for rc st2
    using that
    by (auto simp: cleanUpProject_def thn_def record_call_def ext_def logger_def
        tempFolder_name_def ret_def throw_def
        split: if_splits option.splits prod.splits result.splits)
  show ?thesis
    using run calls by auto
qed

theorem cleanUpProject_error_replaces_outcome_witness:
  "run disk_full local_run (new_ParamedicRunner local_run)
     = (Promise (Fail (TypeError null_name_message)),
        snd (cleanUpProject disk_full local_run
               (snd (run_chain disk_full local_run (new_ParamedicRunner local_run)))))
   \<and> run quiet_world build_only (new_ParamedicRunner build_only)
     = (Promise (Ok Undefined),
        snd (cleanUpProject quiet_world build_only
               (snd (run_chain quiet_world build_only (new_ParamedicRunner build_only)))))"
proof -
  let ?s0 = "new_ParamedicRunner local_run"
  let ?s1 = "snd (run_chain disk_full local_run ?s0)"
  let ?s2 = "snd (cleanUpProject disk_full local_run ?s1)"
  have a1: "checkSauceRequirements disk_full local_run ?s0 = (Ok (), ?s0)"
    by (simp add: step_defs method_defs example_defs)
  have a2: "run_chain disk_full local_run ?s0
              = (Fail (Error ''ENOSPC: no space left on device''), ?s1)"
    by (simp add: step_defs method_defs example_defs Let_def)
  have a3: "Fail (Error ''ENOSPC: no space left on device'') \<noteq> (Hang :: jsvalue result)"
    by simp
  have a4: "cleanUpProject disk_full local_run ?s1
              = (Fail (TypeError null_name_message), ?s2)"
    by (simp add: step_defs method_defs example_defs Let_def)
  let ?t0 = "new_ParamedicRunner build_only"
  let ?t1 = "snd (run_chain quiet_world build_only ?t0)"
  let ?t2 = "snd (cleanUpProject quiet_world build_only ?t1)"
  have b1: "checkSauceRequirements quiet_world build_only ?t0 = (Ok (), ?t0)"
    by (simp add: step_defs method_defs example_defs)
  have b2: "run_chain quiet_world build_only ?t0 = (Ok Undefined, ?t1)"
    by (simp add: step_defs method_defs example_defs Let_def)
  have b3: "Ok Undefined \<noteq> (Hang :: jsvalue result)"
    by simp
  have b4: "cleanUpProject quiet_world build_only ?t1 = (Ok (), ?t2)"
    by (simp add: step_defs method_defs example_defs Let_def)
  from cleanUpProject_error_replaces_outcome [OF a1 a2 a3] a4
    cleanUpProject_error_replaces_outcome [OF b1 b2 b3] b4
  show ?thesis by blast
qed

text \<open>
  C5 as stated fails when \<^verbatim>\<open>tmp.dirSync\<close> throws: the chain is rejected with the
  error of \<^verbatim>\<open>dirSync\<close>, \<^verbatim>\<open>tempFolder\<close> is still \<^verbatim>\<open>null\<close>, and
  \<^verbatim>\<open>cleanUpProject\<close> throws a TypeError on \<^verbatim>\<open>this.tempFolder.name\<close>. The caller
  receives the TypeError in place of the primary error, and nothing is logged.
\<close>

theorem cleanUpProject_error_masks_primary_error:
  "fst (run_chain disk_full local_run (new_ParamedicRunner local_run))
     = Fail (Error ''ENOSPC: no space left on device'')
   \<and> exports_run disk_full local_run
     = \<lparr>outcome = RejectedWith (TypeError null_name_message),
        delivered_at = 0,
        before_delivery = [(0, SetVerboseLevel False), (0, TmpDirSync), (0, EnterCleanUpProject)],
        after_delivery = []\<rparr>"
  by (simp add: step_defs method_defs example_defs Let_def)

text \<open>
  C9 on the code. A remote run on Android with both credentials, in which the build and
  the upload succeed and wd calls the callback of \<^verbatim>\<open>driver.init\<close> with an error. The
  callback throws "Error starting Appium web driver" where no promise catches it, so
  the promise of \<^verbatim>\<open>runSauceTests\<close> is never settled: \<^verbatim>\<open>run\<close> stays pending,
  \<^verbatim>\<open>cleanUpProject\<close> never runs, and all the caller receives is the timeout error of
  \<^verbatim>\<open>exports.run\<close>, one hour later.
\<close>

theorem driver_init_failure_leaves_run_pending:
  "fst (run driver_refused sauce_run (new_ParamedicRunner sauce_run)) = Promise Hang
   \<and> last (trace (snd (run driver_refused sauce_run (new_ParamedicRunner sauce_run))))
     = (67100, Uncaught (Error ''Error starting Appium web driver''))
   \<and> teardowns (trace (snd (run driver_refused sauce_run (new_ParamedicRunner sauce_run)))) = 0
   \<and> outcome (exports_run driver_refused sauce_run)
     = RejectedWith (Error ''This test seems to be blocked :: timeout exceeded. Exiting ...'')
   \<and> delivered_at (exports_run driver_refused sauce_run) = 3600000
   \<and> after_delivery (exports_run driver_refused sauce_run) = []"
  by (simp add: step_defs method_defs example_defs timeout_message_def Let_def)

text \<open>
  C8. In every run, whatever stands in the trace before a call of \<^verbatim>\<open>execPromise\<close>
  includes the registration on the event server of every method of every reporter, of
  the device-log and the device-info listener, and the write of
  \<^verbatim>\<open>{logurl: <connection url>}\<close> to \<^verbatim>\<open>www/medic.json\<close>; and the command handed to
  \<^verbatim>\<open>execPromise\<close> is the build command in remote mode and the run command otherwise.
  The command is issued in every run that passes the requirements check and in which no
  call of the set-up phase throws, the platform requirements are met and the server
  starts.
\<close>

theorem subscriptions_and_file_before_command:
  assumes "run w c (new_ParamedicRunner c) = (res, st)"
  shows "(\<forall>pre t cmd post. trace st = pre @ (t, ExecPromise cmd) # post \<longrightarrow>
            cmd = build_or_run_command c
            \<and> set (subscriptions_and_file w c) \<subseteq> snd ` set pre)
       \<and> ((\<forall>e. res \<noteq> Throws e)
            \<and> (\<forall>a. setup_action a \<longrightarrow> throws w a = None)
            \<and> exit_code w (''cordova requirements '' @ getPlatformId c) = 0
            \<and> (\<exists>d. startServer_completes w = After d None) \<longrightarrow>
          (\<exists>t. (t, ExecPromise (build_or_run_command c)) \<in> set (trace st)))"
proof (intro conjI allI impI)
  fix pre t cmd post
  assume "trace st = pre @ (t, ExecPromise cmd) # post"
  with assms show "cmd = build_or_run_command c"
    and "set (subscriptions_and_file w c) \<subseteq> snd ` set pre"
    using command_after_subscriptions by blast+
next
  assume a: "(\<forall>e. res \<noteq> Throws e)
            \<and> (\<forall>a. setup_action a \<longrightarrow> throws w a = None)
            \<and> exit_code w (''cordova requirements '' @ getPlatformId c) = 0
            \<and> (\<exists>d. startServer_completes w = After d None)"
  then obtain d where d: "startServer_completes w = After d None" by blast
  from a have "(d, ExecPromise (build_or_run_command c)) \<in> set (trace st)"
    by (intro command_is_issued [OF assms _ _ _ d]) simp_all
  then show "\<exists>t. (t, ExecPromise (build_or_run_command c)) \<in> set (trace st)" ..
qed

theorem subscriptions_and_file_before_command_witness:
  "trace (snd (run quiet_world local_run (new_ParamedicRunner local_run))) ! 29
     = (100, ExecPromise ''cordova run android'')
   \<and> {ServerOn ''specDone'' (ReporterMethod ''console'' ''specDone''),
       ServerOn ''jasmineDone'' (ReporterMethod ''console'' ''jasmineDone''),
       ServerOn ''deviceLog'' DeviceLogListener,
       ServerOn ''deviceInfo'' DeviceInfoListener,
       WriteFileSync [''www'', ''medic.json''] [(''logurl'', ''http://10.0.2.2:8008'')]}
     \<subseteq> snd ` set (take 29 (trace (snd (run quiet_world local_run
                                           (new_ParamedicRunner local_run)))))"
proof -
  let ?res = "fst (run quiet_world local_run (new_ParamedicRunner local_run))"
  let ?st = "snd (run quiet_world local_run (new_ParamedicRunner local_run))"
  have r: "run quiet_world local_run (new_ParamedicRunner local_run) = (?res, ?st)"
    by simp
  have n: "trace ?st ! 29 = (100, ExecPromise ''cordova run android'')"
    and l: "29 < length (trace ?st)"
    by (simp_all add: step_defs method_defs example_defs Let_def)
  have split: "trace ?st = take 29 (trace ?st) @ (100, ExecPromise ''cordova run android'')
                 # drop (Suc 29) (trace ?st)"
    using id_take_nth_drop [OF l] n by simp
  have subs: "set (subscriptions_and_file quiet_world local_run) =
      {ServerOn ''specDone'' (ReporterMethod ''console'' ''specDone''),
       ServerOn ''jasmineDone'' (ReporterMethod ''console'' ''jasmineDone''),
       ServerOn ''deviceLog'' DeviceLogListener,
       ServerOn ''deviceInfo'' DeviceInfoListener,
       WriteFileSync [''www'', ''medic.json''] [(''logurl'', ''http://10.0.2.2:8008'')]}"
    by (simp add: subscriptions_and_file_def reporter_listeners_def lifecycle_routes_def
        example_defs)
  from subscriptions_and_file_before_command [OF r] split
  have "set (subscriptions_and_file quiet_world local_run) \<subseteq> snd ` set (take 29 (trace ?st))"
    by blast
  with n subs show ?thesis by simp
qed

text \<open>
  C10. The wait of \<^verbatim>\<open>waitForConnection\<close> is the module constant of 300000 ms and its
  error message names 300 seconds. \<^verbatim>\<open>waitForConnection\<close> has no access to the
  configuration: whatever the configuration and the world, every timer armed in a run
  has a delay of 300000 ms, and a call of \<^verbatim>\<open>waitForConnection\<close> makes its one check
  300000 ms after it was called.
\<close>

theorem watchdog_wait_is_constant:
  "INITIAL_CONNECTION_TIMEOUT = 300000
   \<and> ERR_MSG = ''Seems like device not connected to local server in 300 secs''
   \<and> (\<forall>t ms. (t, SetTimeout ms) \<in> set (before_delivery (exports_run w c))
                                   \<union> set (after_delivery (exports_run w c))
         \<longrightarrow> ms = 300000)
   \<and> (\<forall>st r st'. waitForConnection w st = (r, st') \<longrightarrow>
         now st' = now st + 300000
         \<and> trace st' = trace st @ [(now st, SetTimeout 300000),
                                     (now st + 300000, IsDeviceConnected)]
         \<and> (r = Ok Undefined
            \<or> r = Fail (Error ''Seems like device not connected to local server in 300 secs'')))"
proof (intro conjI allI impI)
  show "INITIAL_CONNECTION_TIMEOUT = 300000"
    by (simp add: INITIAL_CONNECTION_TIMEOUT_def)
  show "ERR_MSG = ''Seems like device not connected to local server in 300 secs''"
    by (rule ERR_MSG_text)
next
  fix t ms
  assume a: "(t, SetTimeout ms) \<in> set (before_delivery (exports_run w c))
                                   \<union> set (after_delivery (exports_run w c))"
  obtain res st where r: "run w c (new_ParamedicRunner c) = (res, st)"
    by (cases "run w c (new_ParamedicRunner c)")
  from exports_run_calls [OF r] a
  have "(t, SetTimeout ms) \<in> set (trace st) \<union> set (pending_checks st)" by blast
  then have "(t, SetTimeout ms) \<in> set (trace st)"
    by (auto simp: pending_checks_def)
  with run_timers [OF r] have "SetTimeout ms = SetTimeout INITIAL_CONNECTION_TIMEOUT"
    by force
  then show "ms = 300000"
    by (simp add: INITIAL_CONNECTION_TIMEOUT_def)
next
  fix st r st'
  assume a: "waitForConnection w st = (r, st')"
  then show "now st' = now st + 300000"
    and "trace st' = trace st @ [(now st, SetTimeout 300000),
                                     (now st + 300000, IsDeviceConnected)]"
    and "r = Ok Undefined
            \<or> r = Fail (Error ''Seems like device not connected to local server in 300 secs'')"
    by (auto simp: waitForConnection_def waitForConnection_call_def
        waitForConnection_expiry_def thn_def Let_def ERR_MSG_text INITIAL_CONNECTION_TIMEOUT_def
        split: if_splits)
qed

theorem watchdog_wait_is_constant_witness:
  "(60100, SetTimeout 300000) \<in> set (before_delivery (exports_run quiet_world local_run))
   \<and> fst (waitForConnection quiet_world idle_runner) = Ok Undefined
   \<and> now (snd (waitForConnection quiet_world idle_runner)) = 300010"
proof -
  have a: "(60100, SetTimeout 300000) \<in> set (before_delivery (exports_run quiet_world local_run))"
    by (simp add: step_defs method_defs example_defs Let_def)
  have b: "fst (waitForConnection quiet_world idle_runner) = Ok Undefined"
    by (simp add: step_defs method_defs example_defs Let_def)
  have c: "waitForConnection quiet_world idle_runner
             = (fst (waitForConnection quiet_world idle_runner),
                snd (waitForConnection quiet_world idle_runner))"
    by simp
  from watchdog_wait_is_constant [of quiet_world local_run] c
  have "now (snd (waitForConnection quiet_world idle_runner)) = now idle_runner + 300000"
    by blast
  then have d: "now (snd (waitForConnection quiet_world idle_runner)) = 300010"
    by (simp add: idle_runner_def)
  from a b d show ?thesis
    by blast
qed

end
